theory Spec2Isabelle
  imports Complex_Main
begin

section \<open>Data model (shared/schema)\<close>

text \<open>
  The tables of the relational schema are lists of rows; a row is a record holding the
  columns the balance, purchase and verification flows read or write. A column of type
  \<open>decimal(p, 2)\<close> holds an integer number of hundredths (\<open>"2500.00"\<close> is \<open>250000\<close>),
  a nullable column is an \<open>option\<close>, and a \<open>timestamp\<close> is an instant, held as its calendar
  date and time of day in UTC, as the column stores it. Generated columns (row ids, the transaction token) are supplied by the caller
  of the model, since the source draws them from \<open>gen_random_uuid()\<close>, \<open>randomUUID()\<close>
  and \<open>Date.now()\<close>.
\<close>

record jsdate =
  dYear :: int
  dMonth :: int
  dDate :: int
  dTime :: int

record user =
  user_id :: string
  username :: string
  balance :: int
  isAdmin :: bool
  hasInfiniteBalance :: bool
  isVerified :: bool
  verifiedAt :: "jsdate option"
  verificationExpiry :: "jsdate option"
  verificationGrantedBy :: "string option"
  totalEarnings :: int

record listing =
  l_id :: string
  l_sellerId :: string
  l_title :: string
  l_price :: int
  l_downloads :: int

record purchase =
  p_id :: string
  p_buyerId :: string
  p_sellerId :: string
  p_listingId :: string
  p_amount :: int
  p_platformFee :: int
  p_transactionId :: string

record notification =
  n_userId :: string
  n_type :: string
  n_title :: string

record achievement =
  a_userId :: string
  a_type :: string

record moneyGift =
  g_id :: string
  g_fromUserId :: string
  g_toUserId :: string
  g_amount :: int
  g_note :: "string option"

record verificationPayment =
  vp_id :: string
  vp_userId :: string
  vp_amount :: int
  vp_periodStart :: jsdate
  vp_periodEnd :: jsdate
  vp_status :: string

record db =
  users :: "user list"
  marketplaceListings :: "listing list"
  purchases :: "purchase list"
  notifications :: "notification list"
  achievements :: "achievement list"
  moneyGifts :: "moneyGift list"
  verificationPayments :: "verificationPayment list"

section \<open>JavaScript numbers\<close>

text \<open>
  A number is a double: \<open>toDouble\<close> is the double nearest to a rational, a tie going to
  the even significand, with 53 significant bits down to the spacing \<open>2 powi -1074\<close> of
  the subnormal numbers. \<open>ulpSearch k x\<close> looks for the spacing of the doubles around
  \<open>x\<close> among the exponents from \<open>int k - 1074\<close> down to \<open>-1074\<close>. A number beyond the
  largest double stays finite here where the language has \<open>Infinity\<close>; the handlers below
  answer both alike (a negative one is rejected, a positive one is a write outside the
  range of its column).
\<close>

definition roundHalfEven :: "rat \<Rightarrow> int" where
  "roundHalfEven x =
     (let f = \<lfloor>x\<rfloor>; d = x - of_int f
      in if d < 1 / 2 then f else if 1 / 2 < d then f + 1
         else if even f then f else f + 1)"

primrec ulpSearch :: "nat \<Rightarrow> rat \<Rightarrow> int" where
  "ulpSearch 0 x = - 1074"
| "ulpSearch (Suc k) x =
     (if 2 powi (int (Suc k) - 1074 + 52) \<le> \<bar>x\<bar> then int (Suc k) - 1074
      else ulpSearch k x)"

definition ulpExponent :: "rat \<Rightarrow> int" where
  "ulpExponent x = ulpSearch 2045 x"

definition toDouble :: "rat \<Rightarrow> rat" where
  "toDouble x = of_int (roundHalfEven (x / 2 powi ulpExponent x)) * 2 powi ulpExponent x"

definition fadd :: "rat \<Rightarrow> rat \<Rightarrow> rat" where
  "fadd x y = toDouble (x + y)"

text \<open>
  \<open>parseFloat\<close> gives the value of a decimal column and \<open>toFixed(2)\<close> writes a number
  with two decimals, rounding to the nearest hundredth, a tie away from zero. Where a
  handler only adds or subtracts two values read from decimal columns and writes the
  result with \<open>toFixed(2)\<close>, the arithmetic of the model is exact: for the values such
  columns can hold, the doubles differ from the exact values by far less than half a
  hundredth, so the string written is that of the exact result and the comparison of
  the doubles is the comparison of the values. Where a number of the request enters
  (the amount of a gift), the model rounds as the doubles do.
\<close>

definition parseFloat :: "int \<Rightarrow> rat" where
  "parseFloat c = of_int c / 100"

definition toFixed2 :: "rat \<Rightarrow> int" where
  "toFixed2 x = (if x < 0 then - \<lfloor>(- x) * 100 + 1 / 2\<rfloor> else \<lfloor>x * 100 + 1 / 2\<rfloor>)"

text \<open>
  A value of a JSON request body. An array or an object carries the string it converts
  to. How a string reads as a number is the language's affair: the handlers take, as
  their first argument, the test whether a string read as a number is at most 0.
\<close>

datatype jsvalue =
    JUndefined
  | JNull
  | JBool bool
  | JNumber rat
  | JString string
  | JObject string

fun truthy :: "jsvalue \<Rightarrow> bool" where
  "truthy JUndefined = False"
| "truthy JNull = False"
| "truthy (JBool b) = b"
| "truthy (JNumber q) = (toDouble q \<noteq> 0)"
| "truthy (JString str) = (str \<noteq> [])"
| "truthy (JObject str) = True"

fun atMostZero :: "(string \<Rightarrow> bool) \<Rightarrow> jsvalue \<Rightarrow> bool" where
  "atMostZero reads JUndefined = False"
| "atMostZero reads JNull = True"
| "atMostZero reads (JBool b) = (b = False)"
| "atMostZero reads (JNumber q) = (toDouble q \<le> 0)"
| "atMostZero reads (JString str) = reads str"
| "atMostZero reads (JObject str) = reads str"

text \<open>
  \<open>x + v\<close> for a number \<open>x\<close>: a number, or \<open>None\<close> where the result is a string (or
  \<open>NaN\<close>), on which \<open>toFixed\<close> throws (or which no decimal column takes).
  \<open>v.toFixed(2)\<close>: \<open>None\<close> where \<open>v\<close> is no number and the call throws.
\<close>

fun plusValue :: "rat \<Rightarrow> jsvalue \<Rightarrow> rat option" where
  "plusValue x JUndefined = None"
| "plusValue x JNull = Some (fadd x 0)"
| "plusValue x (JBool b) = Some (fadd x (if b then 1 else 0))"
| "plusValue x (JNumber q) = Some (fadd x (toDouble q))"
| "plusValue x (JString str) = None"
| "plusValue x (JObject str) = None"

fun valueToFixed2 :: "jsvalue \<Rightarrow> int option" where
  "valueToFixed2 (JNumber q) = Some (toFixed2 (toDouble q))"
| "valueToFixed2 v = None"

section \<open>JavaScript dates\<close>

text \<open>
  A \<open>Date\<close> is an instant; \<open>getMonth\<close> and \<open>setMonth\<close> read and set it in the local time
  of the server. A time zone is given by the two conversions of the language:
  \<open>localTime\<close> takes an instant to its local calendar fields and \<open>utcTime\<close> takes local
  calendar fields to the instant they denote. Calendar fields are year, month (0 to 11),
  day of the month and the time within the day in milliseconds.

  \<open>setLocalMonth\<close> is the calendar part of \<open>setMonth\<close>: it keeps the day of the month and
  the time, and a day number beyond the end of the target month runs over into the month
  after it (31 January set to month 1 is 3 March, or 2 March in a leap year).
\<close>

record timeZone =
  localTime :: "jsdate \<Rightarrow> jsdate"
  utcTime :: "jsdate \<Rightarrow> jsdate"

definition isLeapYear :: "int \<Rightarrow> bool" where
  "isLeapYear y \<longleftrightarrow> y mod 4 = 0 \<and> (0 < y mod 100 \<or> y mod 400 = 0)"

definition daysInMonth :: "int \<Rightarrow> int \<Rightarrow> int" where
  "daysInMonth y m =
     (if m = 1 then (if isLeapYear y then 29 else 28)
      else if m = 3 \<or> m = 5 \<or> m = 8 \<or> m = 10 then 30 else 31)"

definition setLocalMonth :: "jsdate \<Rightarrow> int \<Rightarrow> jsdate" where
  "setLocalMonth d m =
     (let ym = dYear d + m div 12;
          mn = m mod 12;
          dim = daysInMonth ym mn
      in if dDate d \<le> dim then d\<lparr>dYear := ym, dMonth := mn\<rparr>
         else if mn = 11 then d\<lparr>dYear := ym + 1, dMonth := 0, dDate := dDate d - dim\<rparr>
         else d\<lparr>dYear := ym, dMonth := mn + 1, dDate := dDate d - dim\<rparr>)"

definition getMonth :: "timeZone \<Rightarrow> jsdate \<Rightarrow> int" where
  "getMonth z d = dMonth (localTime z d)"

definition setMonth :: "timeZone \<Rightarrow> jsdate \<Rightarrow> int \<Rightarrow> jsdate" where
  "setMonth z d m = utcTime z (setLocalMonth (localTime z d) m)"

definition dateKey :: "jsdate \<Rightarrow> int" where
  "dateKey d = ((dYear d * 12 + dMonth d) * 32 + dDate d) * 86400000 + dTime d"

section \<open>SQL conditions\<close>

text \<open>
  A \<open>where\<close> condition is three-valued: a comparison with a \<open>NULL\<close> operand is unknown
  (\<open>None\<close>), \<open>and\<close> is false as soon as one operand is false and unknown otherwise when
  one is unknown, and a statement touches the rows whose condition is true.
\<close>

definition sql_eq :: "'a option \<Rightarrow> 'a option \<Rightarrow> bool option" where
  "sql_eq a b = (case a of None \<Rightarrow> None
                 | Some x \<Rightarrow> (case b of None \<Rightarrow> None | Some y \<Rightarrow> Some (x = y)))"

definition sql_lt :: "jsdate option \<Rightarrow> jsdate option \<Rightarrow> bool option" where
  "sql_lt a b = (case a of None \<Rightarrow> None
                 | Some x \<Rightarrow> (case b of None \<Rightarrow> None | Some y \<Rightarrow> Some (dateKey x < dateKey y)))"

definition sql_and :: "bool option \<Rightarrow> bool option \<Rightarrow> bool option" where
  "sql_and a b =
     (if a = Some False \<or> b = Some False then Some False
      else if a = None \<or> b = None then None else Some True)"

definition sql_where :: "bool option \<Rightarrow> bool" where
  "sql_where c \<longleftrightarrow> c = Some True"

section \<open>DatabaseStorage\<close>

definition getUser :: "db \<Rightarrow> string \<Rightarrow> user option" where
  "getUser s uid = find (\<lambda>u. user_id u = uid) (users s)"

definition updateUser :: "db \<Rightarrow> string \<Rightarrow> (user \<Rightarrow> user) \<Rightarrow> db" where
  "updateUser s uid f =
     s\<lparr>users := map (\<lambda>u. if user_id u = uid then f u else u) (users s)\<rparr>"

definition updateUserBalance :: "db \<Rightarrow> string \<Rightarrow> int \<Rightarrow> db" where
  "updateUserBalance s uid newBalance =
     s\<lparr>users := map (\<lambda>u. if user_id u = uid then u\<lparr>balance := newBalance\<rparr> else u) (users s)\<rparr>"

definition getListing :: "db \<Rightarrow> string \<Rightarrow> listing option" where
  "getListing s lid = find (\<lambda>l. l_id l = lid) (marketplaceListings s)"

definition incrementListingDownloads :: "db \<Rightarrow> string \<Rightarrow> db" where
  "incrementListingDownloads s lid =
     s\<lparr>marketplaceListings :=
         map (\<lambda>l. if l_id l = lid then l\<lparr>l_downloads := l_downloads l + 1\<rparr> else l)
           (marketplaceListings s)\<rparr>"

definition createPurchase :: "db \<Rightarrow> purchase \<Rightarrow> db" where
  "createPurchase s p = s\<lparr>purchases := purchases s @ [p]\<rparr>"

definition hasPurchased :: "db \<Rightarrow> string \<Rightarrow> string \<Rightarrow> bool" where
  "hasPurchased s uid lid \<longleftrightarrow>
     find (\<lambda>p. p_buyerId p = uid \<and> p_listingId p = lid) (purchases s) \<noteq> None"

definition createNotification :: "db \<Rightarrow> notification \<Rightarrow> db" where
  "createNotification s n = s\<lparr>notifications := notifications s @ [n]\<rparr>"

definition hasAchievement :: "db \<Rightarrow> string \<Rightarrow> string \<Rightarrow> bool" where
  "hasAchievement s uid ty \<longleftrightarrow>
     find (\<lambda>a. a_userId a = uid \<and> a_type a = ty) (achievements s) \<noteq> None"

definition createAchievement :: "db \<Rightarrow> achievement \<Rightarrow> db" where
  "createAchievement s a = s\<lparr>achievements := achievements s @ [a]\<rparr>"

text \<open>
  The columns \<open>balance\<close>, \<open>total_earnings\<close> and the \<open>amount\<close> of a gift are
  \<open>decimal(12, 2)\<close>: the database refuses a value of \<open>10000000000.00\<close> or more in
  magnitude (numeric field overflow) and the statement throws. \<open>writeBalance\<close>,
  \<open>writeTotalEarnings\<close> and \<open>createMoneyGift\<close> are the statements with that check,
  \<open>None\<close> standing for the exception; every such write of the handlers below addresses a
  row the handler has just read.
\<close>

definition fitsDecimal12 :: "int \<Rightarrow> bool" where
  "fitsDecimal12 c \<longleftrightarrow> - 999999999999 \<le> c \<and> c \<le> 999999999999"

definition writeBalance :: "db \<Rightarrow> string \<Rightarrow> int \<Rightarrow> db option" where
  "writeBalance s uid newBalance =
     (if fitsDecimal12 newBalance then Some (updateUserBalance s uid newBalance) else None)"

definition writeTotalEarnings :: "db \<Rightarrow> string \<Rightarrow> int \<Rightarrow> db option" where
  "writeTotalEarnings s uid newEarnings =
     (if fitsDecimal12 newEarnings
      then Some (updateUser s uid (\<lambda>u. u\<lparr>totalEarnings := newEarnings\<rparr>)) else None)"

definition createMoneyGift :: "db \<Rightarrow> moneyGift \<Rightarrow> db option" where
  "createMoneyGift s g =
     (if fitsDecimal12 (g_amount g) then Some (s\<lparr>moneyGifts := moneyGifts s @ [g]\<rparr>)
      else None)"

text \<open>
  \<open>createVerificationPayment\<close> reads the clock three times: for \<open>periodStart\<close>, for
  \<open>periodEnd\<close> on the next line, and, after the insertion, for \<open>verifiedAt\<close>.
\<close>

definition createVerificationPayment ::
  "timeZone \<Rightarrow> db \<Rightarrow> string \<Rightarrow> string \<Rightarrow> jsdate \<Rightarrow> jsdate \<Rightarrow> jsdate
     \<Rightarrow> verificationPayment \<times> db" where
  "createVerificationPayment z s userId newId clock1 clock2 clock3 =
     (let periodStart = clock1;
          periodEnd = setMonth z clock2 (getMonth z clock2 + 1);
          payment = \<lparr>vp_id = newId, vp_userId = userId, vp_amount = 500000,
                     vp_periodStart = periodStart, vp_periodEnd = periodEnd,
                     vp_status = ''active''\<rparr>;
          s1 = s\<lparr>verificationPayments := verificationPayments s @ [payment]\<rparr>;
          s2 = updateUser s1 userId
                 (\<lambda>u. u\<lparr>isVerified := True, verifiedAt := Some clock3,
                         verificationExpiry := Some periodEnd\<rparr>)
      in (payment, s2))"

definition checkAndExpireVerifications :: "db \<Rightarrow> jsdate \<Rightarrow> db" where
  "checkAndExpireVerifications s now =
     (let s1 = s\<lparr>verificationPayments :=
                   map (\<lambda>v. if sql_where
                                  (sql_and (sql_eq (Some (vp_status v)) (Some ''active''))
                                     (sql_lt (Some (vp_periodEnd v)) (Some now)))
                             then v\<lparr>vp_status := ''expired''\<rparr> else v)
                     (verificationPayments s)\<rparr>
      in s1\<lparr>users :=
              map (\<lambda>u. if sql_where
                             (sql_and (sql_eq (Some (isVerified u)) (Some True))
                                (sql_and (sql_lt (verificationExpiry u) (Some now))
                                   (sql_eq (verificationGrantedBy u) None)))
                        then u\<lparr>isVerified := False, verificationExpiry := None\<rparr> else u)
                (users s1)\<rparr>)"

section \<open>Request handlers (server/routes)\<close>

text \<open>
  A handler returns the rejection it answers with, or the row it created, together with
  the database it leaves behind. The statements of a handler run one after the other
  with no surrounding transaction, and so do the updates of the model: a statement that
  throws leaves the writes before it in place, and the handler's \<open>catch\<close> answers with
  status 500. The exceptions of the model are those the data of a request can cause (a
  value outside the range of its column, a method called on a value that has none); a
  database that cannot be reached is outside the model.
\<close>

datatype failure =
    NotAuthenticated
  | AdminRequired
  | ListingNotFound
  | UserNotFound
  | AlreadyOwned
  | OwnListing
  | InsufficientBalance
  | PurchaseFailed
  | AlreadyVerified
  | InsufficientBalanceVerification
  | InvalidUserOrAmount
  | GiftFailed

fun statusCode :: "failure \<Rightarrow> nat" where
  "statusCode NotAuthenticated = 401"
| "statusCode AdminRequired = 403"
| "statusCode ListingNotFound = 404"
| "statusCode UserNotFound = 404"
| "statusCode AlreadyOwned = 400"
| "statusCode OwnListing = 400"
| "statusCode InsufficientBalance = 400"
| "statusCode PurchaseFailed = 500"
| "statusCode AlreadyVerified = 400"
| "statusCode InsufficientBalanceVerification = 400"
| "statusCode InvalidUserOrAmount = 400"
| "statusCode GiftFailed = 500"

fun message :: "failure \<Rightarrow> string" where
  "message NotAuthenticated = ''Not authenticated''"
| "message AdminRequired = ''Admin access required''"
| "message ListingNotFound = ''Listing not found''"
| "message UserNotFound = ''User not found''"
| "message AlreadyOwned = ''You already own this file''"
| "message OwnListing = ''You cannot buy your own listing''"
| "message InsufficientBalance = ''Insufficient balance''"
| "message PurchaseFailed = ''Failed to complete purchase''"
| "message AlreadyVerified = ''You are already verified''"
| "message InsufficientBalanceVerification =
     ''Insufficient balance. Verification costs $5,000/month.''"
| "message InvalidUserOrAmount = ''Invalid user or amount''"
| "message GiftFailed = ''Failed to send gift''"

definition requireAuth :: "string option \<Rightarrow> failure + string" where
  "requireAuth session =
     (case session of None \<Rightarrow> Inl NotAuthenticated
      | Some uid \<Rightarrow> if uid = [] then Inl NotAuthenticated else Inr uid)"


subsection \<open>POST /api/marketplace/:id/purchase\<close>

text \<open>
  The handler is written in three pieces: \<open>creditSeller\<close> is its block that looks the
  seller up and credits the balance and the total earnings, \<open>purchaseAftermath\<close> is
  what follows the insertion of the purchase row (download counter, the two
  notifications, the first-purchase achievement), and \<open>purchaseListing\<close> is the handler.
  \<open>creditSeller\<close> ends in \<open>Done\<close>, or in \<open>Threw\<close> with the database as the failing
  statement found it. The amount of the purchase row is the listing's price, read from a
  column of the same type, so its insertion does not overflow.
\<close>

datatype written = Threw db | Done db

definition creditSeller :: "db \<Rightarrow> string \<Rightarrow> rat \<Rightarrow> written" where
  "creditSeller s sellerId price =
     (case getUser s sellerId of
        None \<Rightarrow> Done s
      | Some seller \<Rightarrow>
          if \<not> hasInfiniteBalance seller then
            (let sellerBalance = parseFloat (balance seller);
                 sellerEarnings = parseFloat (totalEarnings seller)
             in case writeBalance s (user_id seller) (toFixed2 (sellerBalance + price)) of
                  None \<Rightarrow> Threw s
                | Some s1 \<Rightarrow>
                    (case writeTotalEarnings s1 (user_id seller)
                            (toFixed2 (sellerEarnings + price)) of
                       None \<Rightarrow> Threw s1
                     | Some s2 \<Rightarrow> Done s2))
          else Done s)"

definition purchaseAftermath :: "db \<Rightarrow> listing \<Rightarrow> user \<Rightarrow> db" where
  "purchaseAftermath s l buyer =
     (let s1 = incrementListingDownloads s (l_id l);
          s2 = createNotification s1
                 \<lparr>n_userId = user_id buyer, n_type = ''purchase'',
                  n_title = ''Purchase Complete''\<rparr>;
          s3 = createNotification s2
                 \<lparr>n_userId = l_sellerId l, n_type = ''sale'', n_title = ''New Sale''\<rparr>
      in if \<not> hasAchievement s3 (user_id buyer) ''first_purchase''
         then createAchievement s3 \<lparr>a_userId = user_id buyer, a_type = ''first_purchase''\<rparr>
         else s3)"

definition purchaseListing ::
  "db \<Rightarrow> string \<Rightarrow> string \<Rightarrow> string \<Rightarrow> string \<Rightarrow> (failure + purchase) \<times> db" where
  "purchaseListing s sessionUserId listingId newId txn =
     (case getListing s listingId of
        None \<Rightarrow> (Inl ListingNotFound, s)
      | Some l \<Rightarrow>
     (case getUser s sessionUserId of
        None \<Rightarrow> (Inl UserNotFound, s)
      | Some buyer \<Rightarrow>
          if hasPurchased s sessionUserId listingId then (Inl AlreadyOwned, s)
          else if l_sellerId l = sessionUserId then (Inl OwnListing, s)
          else
            (let price = parseFloat (l_price l);
                 buyerBalance = parseFloat (balance buyer)
             in if \<not> hasInfiniteBalance buyer \<and> buyerBalance < price
                then (Inl InsufficientBalance, s)
                else
                  (case (if \<not> hasInfiniteBalance buyer
                         then writeBalance s (user_id buyer) (toFixed2 (buyerBalance - price))
                         else Some s) of
                     None \<Rightarrow> (Inl PurchaseFailed, s)
                   | Some s1 \<Rightarrow>
                       (case creditSeller s1 (l_sellerId l) price of
                          Threw s2 \<Rightarrow> (Inl PurchaseFailed, s2)
                        | Done s2 \<Rightarrow>
                            (let p = \<lparr>p_id = newId, p_buyerId = user_id buyer,
                                      p_sellerId = l_sellerId l, p_listingId = l_id l,
                                      p_amount = l_price l, p_platformFee = 0,
                                      p_transactionId = txn\<rparr>;
                                 s3 = createPurchase s2 p
                             in (Inr p, purchaseAftermath s3 l buyer)))))))"

subsection \<open>POST /api/verification/purchase\<close>

text \<open>
  The balance the handler writes lies between zero and the balance it read, so it is in
  the range of the column whenever the balance read is: this write does not overflow.
\<close>

definition verificationCost :: rat where
  "verificationCost = 5000"

definition purchaseVerification ::
  "timeZone \<Rightarrow> db \<Rightarrow> string \<Rightarrow> string \<Rightarrow> jsdate \<Rightarrow> jsdate \<Rightarrow> jsdate
     \<Rightarrow> (failure + verificationPayment) \<times> db" where
  "purchaseVerification z s sessionUserId newId clock1 clock2 clock3 =
     (case getUser s sessionUserId of
        None \<Rightarrow> (Inl UserNotFound, s)
      | Some u \<Rightarrow>
          if isVerified u then (Inl AlreadyVerified, s)
          else
            (let bal = parseFloat (balance u)
             in if \<not> hasInfiniteBalance u \<and> bal < verificationCost
                then (Inl InsufficientBalanceVerification, s)
                else
                  (let s1 = (if \<not> hasInfiniteBalance u
                             then updateUserBalance s (user_id u)
                                    (toFixed2 (bal - verificationCost))
                             else s);
                       (payment, s2) =
                          createVerificationPayment z s1 (user_id u) newId clock1 clock2 clock3;
                       s3 = createNotification s2
                              \<lparr>n_userId = user_id u, n_type = ''system'',
                               n_title = ''Verification Active''\<rparr>
                   in (Inr payment, s3))))"

subsection \<open>POST /api/admin/gift-money\<close>

text \<open>
  The body's \<open>userId\<close> is \<open>None\<close> when the body has none, and otherwise the string it
  is (or the string the database driver sends for it); \<open>amount\<close> is any value of the
  body. The handler runs behind \<open>requireAdmin\<close>. \<open>reads\<close> is the test whether a string,
  read as a number, is at most 0.
\<close>

definition giftMoney ::
  "(string \<Rightarrow> bool) \<Rightarrow> db \<Rightarrow> string \<Rightarrow> string option \<Rightarrow> jsvalue \<Rightarrow> string option
     \<Rightarrow> string \<Rightarrow> (failure + moneyGift) \<times> db" where
  "giftMoney reads s sessionUserId userId amount note newId =
     (case userId of None \<Rightarrow> (Inl InvalidUserOrAmount, s) | Some uid \<Rightarrow>
        if uid = [] \<or> \<not> truthy amount \<or> atMostZero reads amount
        then (Inl InvalidUserOrAmount, s)
        else
          (case getUser s uid of
             None \<Rightarrow> (Inl UserNotFound, s)
           | Some recipient \<Rightarrow>
               (case (if \<not> hasInfiniteBalance recipient
                      then (case plusValue (toDouble (parseFloat (balance recipient))) amount of
                              None \<Rightarrow> None
                            | Some newBalance \<Rightarrow> writeBalance s uid (toFixed2 newBalance))
                      else Some s) of
                  None \<Rightarrow> (Inl GiftFailed, s)
                | Some s1 \<Rightarrow>
                    (case valueToFixed2 amount of
                       None \<Rightarrow> (Inl GiftFailed, s1)
                     | Some giftAmount \<Rightarrow>
                         (let gift = \<lparr>g_id = newId, g_fromUserId = sessionUserId,
                                       g_toUserId = uid, g_amount = giftAmount,
                                       g_note = note\<rparr>
                          in case createMoneyGift s1 gift of
                               None \<Rightarrow> (Inl GiftFailed, s1)
                             | Some s2 \<Rightarrow>
                                 (Inr gift,
                                  createNotification s2
                                    \<lparr>n_userId = uid, n_type = ''gift'',
                                     n_title = ''Money Gift Received''\<rparr>))))))"


section \<open>Notions of the specification\<close>

text \<open>
  "One calendar month after", in the specification's words: the same time of day in the
  month that follows, on the same day of the month, or on that month's last day when
  it is shorter.
\<close>

definition spec_oneCalendarMonthAfter :: "jsdate \<Rightarrow> jsdate \<Rightarrow> bool" where
  "spec_oneCalendarMonthAfter a b \<longleftrightarrow>
     dYear b * 12 + dMonth b = dYear a * 12 + dMonth a + 1
     \<and> 0 \<le> dMonth b \<and> dMonth b < 12
     \<and> dDate b = min (dDate a) (daysInMonth (dYear b) (dMonth b))
     \<and> dTime b = dTime a"

text \<open>A well-formed date: its fields are in the ranges the calendar gives them.\<close>

definition validDate :: "jsdate \<Rightarrow> bool" where
  "validDate d \<longleftrightarrow>
     0 \<le> dMonth d \<and> dMonth d < 12
     \<and> 1 \<le> dDate d \<and> dDate d \<le> daysInMonth (dYear d) (dMonth d)
     \<and> 0 \<le> dTime d \<and> dTime d < 86400000"

text \<open>The day of the month of \<open>d\<close> also exists in the month after \<open>d\<close>'s.\<close>

definition dayExistsNextMonth :: "jsdate \<Rightarrow> bool" where
  "dayExistsNextMonth d \<longleftrightarrow>
     dDate d \<le> daysInMonth (dYear d + (dMonth d + 1) div 12) ((dMonth d + 1) mod 12)"

text \<open>
  The local time \<open>d\<close> exists in the zone: the instant it denotes reads as \<open>d\<close> again (a
  local time inside the hour a daylight-saving change skips does not).
\<close>

definition localTimeExists :: "timeZone \<Rightarrow> jsdate \<Rightarrow> bool" where
  "localTimeExists z d \<longleftrightarrow> localTime z (utcTime z d) = d"

text \<open>At most one purchase row for each pair of a buyer and a listing.\<close>

definition onePurchasePerPair :: "db \<Rightarrow> bool" where
  "onePurchasePerPair s \<longleftrightarrow>
     distinct (map (\<lambda>p. (p_buyerId p, p_listingId p)) (purchases s))"

text \<open>No account holds a negative balance.\<close>

definition balancesNonNegative :: "db \<Rightarrow> bool" where
  "balancesNonNegative s \<longleftrightarrow> list_all (\<lambda>u. 0 \<le> balance u) (users s)"

section \<open>Sample rows\<close>

text \<open>
  \<open>newUser\<close> is a row of \<open>users\<close> with the column defaults of the schema (balance
  \<open>"2500.00"\<close>, every flag false); \<open>adminUser\<close> is the account \<open>initAdminAccount\<close> sets up.
\<close>

definition newUser :: "string \<Rightarrow> user" where
  "newUser uid =
     \<lparr>user_id = uid, username = uid, balance = 250000, isAdmin = False,
      hasInfiniteBalance = False, isVerified = False, verifiedAt = None,
      verificationExpiry = None, verificationGrantedBy = None, totalEarnings = 0\<rparr>"

definition adminUser :: user where
  "adminUser =
     (newUser ''admin'')\<lparr>username := ''lorddevine_admin'', isAdmin := True,
        hasInfiniteBalance := True, balance := 99999999999, isVerified := True\<rparr>"

definition alice :: user where
  "alice = newUser ''alice''"

definition bob :: user where
  "bob = (newUser ''bob'')\<lparr>balance := 5000\<rparr>"

definition carol :: user where
  "carol = (newUser ''carol'')\<lparr>balance := 500000\<rparr>"

definition erin :: user where
  "erin = (newUser ''erin'')\<lparr>hasInfiniteBalance := True\<rparr>"

definition dave :: user where
  "dave =
     (newUser ''dave'')\<lparr>isVerified := True,
        verifiedAt := Some \<lparr>dYear = 2025, dMonth = 11, dDate = 15, dTime = 0\<rparr>,
        verificationExpiry := Some \<lparr>dYear = 2026, dMonth = 0, dDate = 15, dTime = 0\<rparr>\<rparr>"

definition listing1 :: listing where
  "listing1 = \<lparr>l_id = ''L1'', l_sellerId = ''bob'', l_title = ''parser'',
               l_price = 50000, l_downloads = 0\<rparr>"

definition listing2 :: listing where
  "listing2 = \<lparr>l_id = ''L2'', l_sellerId = ''alice'', l_title = ''engine'',
               l_price = 900000, l_downloads = 0\<rparr>"

definition listing3 :: listing where
  "listing3 = \<lparr>l_id = ''L3'', l_sellerId = ''bob'', l_title = ''rebate'',
               l_price = - 10000, l_downloads = 0\<rparr>"

definition sampleDb :: db where
  "sampleDb =
     \<lparr>users = [alice, bob, carol, dave, erin, adminUser],
      marketplaceListings = [listing1, listing2, listing3],
      purchases = [], notifications = [], achievements = [], moneyGifts = [],
      verificationPayments = []\<rparr>"

definition aliceOwnsListing1 :: db where
  "aliceOwnsListing1 =
     sampleDb\<lparr>purchases :=
       [\<lparr>p_id = ''P0'', p_buyerId = ''alice'', p_sellerId = ''bob'', p_listingId = ''L1'',
         p_amount = 50000, p_platformFee = 0, p_transactionId = ''TXN0''\<rparr>]\<rparr>"

definition mid_january :: jsdate where
  "mid_january = \<lparr>dYear = 2026, dMonth = 0, dDate = 15, dTime = 43200000\<rparr>"

definition end_of_january :: jsdate where
  "end_of_january = \<lparr>dYear = 2026, dMonth = 0, dDate = 31, dTime = 43200000\<rparr>"

definition february_first :: jsdate where
  "february_first = \<lparr>dYear = 2026, dMonth = 1, dDate = 1, dTime = 0\<rparr>"

text \<open>A server whose local time is UTC.\<close>

definition utc :: timeZone where
  "utc = \<lparr>localTime = (\<lambda>d. d), utcTime = (\<lambda>d. d)\<rparr>"

section \<open>Auxiliary facts\<close>

lemmas sample_defs =
  sampleDb_def alice_def bob_def carol_def dave_def erin_def adminUser_def newUser_def
  listing1_def listing2_def listing3_def aliceOwnsListing1_def
  mid_january_def end_of_january_def february_first_def

lemmas storage_defs =
  getUser_def updateUser_def updateUserBalance_def getListing_def
  incrementListingDownloads_def createPurchase_def hasPurchased_def createNotification_def
  hasAchievement_def createAchievement_def createMoneyGift_def createVerificationPayment_def
  writeBalance_def writeTotalEarnings_def fitsDecimal12_def

subsection \<open>Numbers\<close>

lemma floor_numeral_quotient:
  "\<lfloor>(numeral a :: rat) / numeral b\<rfloor> = numeral a div numeral b"
  using floor_divide_of_int_eq [of "numeral a" "numeral b", where ?'a = rat] by simp

lemma floor_half_shift: "\<lfloor>(of_int n :: rat) + 1 / 2\<rfloor> = n"
  by (rule floor_unique) simp_all

lemma toFixed2_of_int: "toFixed2 (of_int n / 100) = n"
proof (cases "n < 0")
  case True
  have "\<lfloor>(of_int (- n) :: rat) + 1 / 2\<rfloor> = - n" by (rule floor_half_shift)
  with True show ?thesis by (simp add: toFixed2_def divide_less_0_iff)
next
  case False
  with floor_half_shift [of n] show ?thesis by (simp add: toFixed2_def divide_less_0_iff)
qed

lemma toFixed2_sub: "toFixed2 (parseFloat a - parseFloat b) = a - b"
  using toFixed2_of_int [of "a - b"] by (simp add: parseFloat_def diff_divide_distrib)

lemma toFixed2_add: "toFixed2 (parseFloat a + parseFloat b) = a + b"
  using toFixed2_of_int [of "a + b"] by (simp add: parseFloat_def add_divide_distrib)

lemma toFixed2_cost: "toFixed2 (parseFloat a - verificationCost) = a - 500000"
  using toFixed2_of_int [of "a - 500000"] by (simp add: parseFloat_def verificationCost_def diff_divide_distrib)

lemma parseFloat_less: "parseFloat a < parseFloat b \<longleftrightarrow> a < b"
  by (simp add: parseFloat_def divide_less_cancel)

lemma parseFloat_less_cost: "parseFloat a < verificationCost \<longleftrightarrow> a < 500000"
  by (simp add: parseFloat_def verificationCost_def pos_divide_less_eq)

lemma roundHalfEven_of_int: "roundHalfEven (of_int n) = n"
  by (simp add: roundHalfEven_def)

lemma roundHalfEven_nonneg: "0 \<le> x \<Longrightarrow> 0 \<le> roundHalfEven x"
  by (auto simp: roundHalfEven_def Let_def)

lemma roundHalfEven_error: "\<bar>of_int (roundHalfEven x) - x\<bar> \<le> 1 / 2"
proof -
  define f where "f = \<lfloor>x\<rfloor>"
  have lo: "of_int f \<le> x" and hi: "x < of_int f + 1"
    unfolding f_def by linarith+
  consider "x - of_int f < 1 / 2" | "1 / 2 < x - of_int f" | "x - of_int f = 1 / 2"
    by linarith
  then show ?thesis
  proof cases
    case 1
    then have "roundHalfEven x = f" by (simp add: roundHalfEven_def f_def Let_def)
    with 1 lo show ?thesis by simp
  next
    case 2
    then have "roundHalfEven x = f + 1" by (simp add: roundHalfEven_def f_def Let_def)
    with 2 hi show ?thesis by simp
  next
    case 3
    then have "roundHalfEven x = f \<or> roundHalfEven x = f + 1"
      by (simp add: roundHalfEven_def f_def Let_def)
    with 3 show ?thesis by auto
  qed
qed

lemma ulpSearch_lower: "- 1074 \<le> ulpSearch k x"
  by (induction k) auto

lemma ulpSearch_found: "ulpSearch k x = - 1074 \<or> 2 powi (ulpSearch k x + 52) \<le> \<bar>x\<bar>"
  by (induction k) auto

lemma ulpExponent_le:
  assumes "\<bar>x\<bar> < 2 powi (n + 53)" and "- 1074 \<le> n"
  shows "ulpExponent x \<le> n"
proof (rule ccontr)
  assume "\<not> ulpExponent x \<le> n"
  then have gt: "n < ulpExponent x" by simp
  with assms(2) have "ulpExponent x \<noteq> - 1074" by simp
  then have "(2::rat) powi (ulpExponent x + 52) \<le> \<bar>x\<bar>"
    using ulpSearch_found [of 2045 x] by (simp add: ulpExponent_def)
  moreover have "(2::rat) powi (n + 53) \<le> 2 powi (ulpExponent x + 52)"
    using gt by (intro power_int_increasing) auto
  ultimately show False using assms(1) by linarith
qed

lemma toDouble_of_int:
  assumes "\<bar>n\<bar> < 2 ^ 53"
  shows "toDouble (of_int n) = of_int n"
proof -
  define q where "q = ulpExponent (of_int n)"
  have "\<bar>of_int n :: rat\<bar> < 2 powi (0 + 53)"
  proof -
    have "\<bar>of_int n :: rat\<bar> = of_int \<bar>n\<bar>" by simp
    also have "\<dots> < of_int (2 ^ 53)" using assms by (simp only: of_int_less_iff)
    finally show ?thesis by simp
  qed
  then have q0: "q \<le> 0" unfolding q_def by (rule ulpExponent_le) simp
  define k where "k = nat (- q)"
  have qk: "q = - int k" using q0 by (simp add: k_def)
  have scaled: "(of_int n :: rat) / 2 powi q = of_int (n * 2 ^ k)"
    by (simp add: qk power_int_minus field_simps)
  have "toDouble (of_int n) = of_int (n * 2 ^ k) * 2 powi q"
    unfolding toDouble_def q_def [symmetric] scaled roundHalfEven_of_int ..
  also have "\<dots> = of_int n"
    by (simp add: qk power_int_minus field_simps)
  finally show ?thesis .
qed

lemma toDouble_numeral [simp]:
  "numeral w < (2 ^ 53 :: int) \<Longrightarrow> toDouble (numeral w) = numeral w"
  using toDouble_of_int [of "numeral w"] by simp

lemma toDouble_zero [simp]: "toDouble 0 = 0"
  using toDouble_of_int [of 0] by simp

lemma toDouble_one [simp]: "toDouble 1 = 1"
  using toDouble_of_int [of 1] by simp

lemma toDouble_nonneg: "0 \<le> x \<Longrightarrow> 0 \<le> toDouble x"
  by (simp add: toDouble_def roundHalfEven_nonneg)

lemma toDouble_error:
  "\<bar>toDouble x - x\<bar> \<le> 2 powi ulpExponent x / 2"
proof -
  let ?p = "(2::rat) powi ulpExponent x"
  have pos: "0 < ?p" by simp
  have "toDouble x - x = (of_int (roundHalfEven (x / ?p)) - x / ?p) * ?p"
    using pos by (simp add: toDouble_def field_simps)
  then have "\<bar>toDouble x - x\<bar> = \<bar>of_int (roundHalfEven (x / ?p)) - x / ?p\<bar> * ?p"
    using pos by (simp add: abs_mult)
  also have "\<dots> \<le> 1 / 2 * ?p"
    using roundHalfEven_error [of "x / ?p"] pos by (intro mult_right_mono) auto
  finally show ?thesis by simp
qed


lemma toDouble_near:
  assumes "\<bar>x\<bar> < 2 powi 35"
  shows "\<bar>toDouble x - x\<bar> \<le> 1 / 524288"
proof -
  have "ulpExponent x \<le> - 18"
    using assms by (intro ulpExponent_le) simp_all
  then have "(2::rat) powi ulpExponent x \<le> 2 powi (- 18)"
    by (intro power_int_increasing) auto
  then have "(2::rat) powi ulpExponent x / 2 \<le> 1 / 524288"
    by (simp add: power_int_minus)
  with toDouble_error [of x] show ?thesis by linarith
qed

lemma toFixed2_near:
  assumes "\<bar>y - of_int n / 100\<bar> < 1 / 200"
  shows "toFixed2 y = n"
proof -
  have lo: "of_int n - 1 / 2 < y * 100" and hi: "y * 100 < of_int n + 1 / 2"
    using assms by linarith+
  show ?thesis
  proof (cases "y < 0")
    case True
    have "\<lfloor>(- y) * 100 + 1 / 2\<rfloor> = - n"
      by (rule floor_unique) (use lo hi in auto)
    with True show ?thesis by (simp add: toFixed2_def)
  next
    case False
    have "\<lfloor>y * 100 + 1 / 2\<rfloor> = n"
      by (rule floor_unique) (use lo hi in auto)
    with False show ?thesis by (simp add: toFixed2_def)
  qed
qed

lemma parseFloat_bound:
  assumes "fitsDecimal12 c"
  shows "\<bar>parseFloat c\<bar> \<le> 10000000000"
proof -
  have "\<bar>c\<bar> \<le> 1000000000000" using assms unfolding fitsDecimal12_def by linarith
  then have "(of_int \<bar>c\<bar> :: rat) \<le> of_int 1000000000000" by (simp only: of_int_le_iff)
  then show ?thesis by (simp add: parseFloat_def)
qed

lemma column_double_near:
  assumes "fitsDecimal12 c"
  shows "\<bar>toDouble (parseFloat c) - parseFloat c\<bar> \<le> 1 / 524288"
  using parseFloat_bound [OF assms] by (intro toDouble_near) simp

text \<open>
  The exact arithmetic of the purchase and verification handlers agrees with the doubles
  of the code on the values of \<open>decimal(12, 2)\<close> columns: the string \<open>toFixed(2)\<close> writes
  and the outcome of the comparison are the same.
\<close>

lemma double_difference_is_exact:
  assumes "fitsDecimal12 a" and "fitsDecimal12 b"
  shows "toFixed2 (toDouble (toDouble (parseFloat a) - toDouble (parseFloat b)))
         = toFixed2 (parseFloat a - parseFloat b)"
proof -
  let ?A = "toDouble (parseFloat a)" and ?B = "toDouble (parseFloat b)"
  note ea = column_double_near [OF assms(1)] and eb = column_double_near [OF assms(2)]
  note ba = parseFloat_bound [OF assms(1)] and bb = parseFloat_bound [OF assms(2)]
  have "\<bar>?A - ?B\<bar> < 34359738368" using ea eb ba bb by linarith
  then have "\<bar>?A - ?B\<bar> < 2 powi 35" by simp
  then have ed: "\<bar>toDouble (?A - ?B) - (?A - ?B)\<bar> \<le> 1 / 524288" by (rule toDouble_near)
  have "of_int (a - b) / 100 = parseFloat a - parseFloat b"
    by (simp add: parseFloat_def diff_divide_distrib)
  then have "\<bar>toDouble (?A - ?B) - of_int (a - b) / 100\<bar> < 1 / 200"
    using ea eb ed by linarith
  then have "toFixed2 (toDouble (?A - ?B)) = a - b" by (rule toFixed2_near)
  moreover have "toFixed2 (parseFloat a - parseFloat b) = a - b"
    by (rule toFixed2_near) (simp add: parseFloat_def diff_divide_distrib)
  ultimately show ?thesis by simp
qed

lemma double_sum_is_exact:
  assumes "fitsDecimal12 a" and "fitsDecimal12 b"
  shows "toFixed2 (fadd (toDouble (parseFloat a)) (toDouble (parseFloat b)))
         = toFixed2 (parseFloat a + parseFloat b)"
proof -
  let ?A = "toDouble (parseFloat a)" and ?B = "toDouble (parseFloat b)"
  note ea = column_double_near [OF assms(1)] and eb = column_double_near [OF assms(2)]
  note ba = parseFloat_bound [OF assms(1)] and bb = parseFloat_bound [OF assms(2)]
  have "\<bar>?A + ?B\<bar> < 34359738368" using ea eb ba bb by linarith
  then have "\<bar>?A + ?B\<bar> < 2 powi 35" by simp
  then have ed: "\<bar>toDouble (?A + ?B) - (?A + ?B)\<bar> \<le> 1 / 524288" by (rule toDouble_near)
  have "of_int (a + b) / 100 = parseFloat a + parseFloat b"
    by (simp add: parseFloat_def add_divide_distrib)
  then have "\<bar>toDouble (?A + ?B) - of_int (a + b) / 100\<bar> < 1 / 200"
    using ea eb ed by linarith
  then have "toFixed2 (fadd ?A ?B) = a + b" unfolding fadd_def by (rule toFixed2_near)
  moreover have "toFixed2 (parseFloat a + parseFloat b) = a + b"
    by (rule toFixed2_near) (simp add: parseFloat_def add_divide_distrib)
  ultimately show ?thesis by simp
qed

lemma double_comparison_is_exact:
  assumes "fitsDecimal12 a" and "fitsDecimal12 b"
  shows "toDouble (parseFloat a) < toDouble (parseFloat b) \<longleftrightarrow> parseFloat a < parseFloat b"
proof -
  let ?A = "toDouble (parseFloat a)" and ?B = "toDouble (parseFloat b)"
  note ea = column_double_near [OF assms(1)] and eb = column_double_near [OF assms(2)]
  consider "a < b" | "a = b" | "b < a" by linarith
  then show ?thesis
  proof cases
    case 1
    then have "a + 1 \<le> b" by simp
    then have "(of_int (a + 1) :: rat) \<le> of_int b" by (simp only: of_int_le_iff)
    then have "parseFloat a + 1 / 100 \<le> parseFloat b" by (simp add: parseFloat_def field_simps)
    with ea eb have "?A < ?B" "parseFloat a < parseFloat b" by linarith+
    then show ?thesis by simp
  next
    case 2
    then show ?thesis by simp
  next
    case 3
    then have "b + 1 \<le> a" by simp
    then have "(of_int (b + 1) :: rat) \<le> of_int a" by (simp only: of_int_le_iff)
    then have "parseFloat b + 1 / 100 \<le> parseFloat a" by (simp add: parseFloat_def field_simps)
    with ea eb have "?B < ?A" "parseFloat b < parseFloat a" by linarith+
    then show ?thesis by simp
  qed
qed

lemma double_fee_is_exact:
  assumes "fitsDecimal12 a"
  shows "toFixed2 (toDouble (toDouble (parseFloat a) - toDouble verificationCost))
           = toFixed2 (parseFloat a - verificationCost)"
    and "toDouble (parseFloat a) < toDouble verificationCost \<longleftrightarrow> parseFloat a < verificationCost"
proof -
  have fee: "verificationCost = parseFloat 500000" "fitsDecimal12 500000"
    by (simp_all add: verificationCost_def parseFloat_def fitsDecimal12_def)
  show "toFixed2 (toDouble (toDouble (parseFloat a) - toDouble verificationCost))
           = toFixed2 (parseFloat a - verificationCost)"
    unfolding fee(1) using assms fee(2) by (rule double_difference_is_exact)
  show "toDouble (parseFloat a) < toDouble verificationCost \<longleftrightarrow> parseFloat a < verificationCost"
    unfolding fee(1) using assms fee(2) by (rule double_comparison_is_exact)
qed

lemma ulpSearch_ge:
  assumes "2 powi (q + 52) \<le> \<bar>x\<bar>" and "- 1074 \<le> q" and "q \<le> int k - 1074"
  shows "q \<le> ulpSearch k x"
  using assms(3)
proof (induction k)
  case 0
  with assms(2) show ?case by simp
next
  case (Suc k)
  show ?case
  proof (cases "2 powi (int (Suc k) - 1074 + 52) \<le> \<bar>x\<bar>")
    case True
    with Suc.prems show ?thesis by simp
  next
    case False
    with assms(1) have "q \<noteq> int (Suc k) - 1074" by auto
    with Suc.prems have "q \<le> int k - 1074" by simp
    with Suc.IH False show ?thesis by simp
  qed
qed

lemma ulpExponent_eq:
  assumes "2 powi (q + 52) \<le> \<bar>x\<bar>" and "\<bar>x\<bar> < 2 powi (q + 53)"
    and "- 1074 \<le> q" and "q \<le> 971"
  shows "ulpExponent x = q"
proof (rule antisym)
  show "ulpExponent x \<le> q" using assms(2,3) by (rule ulpExponent_le)
  show "q \<le> ulpExponent x"
    unfolding ulpExponent_def using assms(1,3) by (rule ulpSearch_ge) (use assms(4) in simp)
qed

subsection \<open>Storage\<close>

lemma find_user_id: "find (\<lambda>u. user_id u = k) xs = Some u \<Longrightarrow> user_id u = k"
  by (induction xs) (auto split: if_splits)

lemma getUser_id: "getUser s uid = Some u \<Longrightarrow> user_id u = uid"
  unfolding getUser_def by (rule find_user_id)

lemma find_update_rows:
  assumes "\<And>u. user_id (f u) = user_id u"
  shows "find (\<lambda>u. user_id u = k) (map (\<lambda>u. if user_id u = uid then f u else u) xs)
         = (if k = uid then map_option f (find (\<lambda>u. user_id u = uid) xs)
            else find (\<lambda>u. user_id u = k) xs)"
  using assms by (induction xs) auto

lemma getUser_updateUser:
  assumes "\<And>u. user_id (f u) = user_id u"
  shows "getUser (updateUser s uid f) k
         = (if k = uid then map_option f (getUser s uid) else getUser s k)"
  unfolding getUser_def updateUser_def using find_update_rows [OF assms] by simp

lemma updateUserBalance_as_updateUser:
  "updateUserBalance s uid b = updateUser s uid (\<lambda>u. u\<lparr>balance := b\<rparr>)"
  by (simp add: updateUserBalance_def updateUser_def)

lemma getUser_updateUserBalance:
  "getUser (updateUserBalance s uid b) k
   = (if k = uid then map_option (\<lambda>u. u\<lparr>balance := b\<rparr>) (getUser s uid) else getUser s k)"
  unfolding updateUserBalance_as_updateUser by (rule getUser_updateUser) simp

lemma find_None_pairs:
  "find (\<lambda>p. p_buyerId p = A \<and> p_listingId p = L) ps = None
   \<Longrightarrow> (A, L) \<notin> (\<lambda>p. (p_buyerId p, p_listingId p)) ` set ps"
  by (induction ps) (auto split: if_splits)

lemma getListing_id: "getListing s lid = Some l \<Longrightarrow> l_id l = lid"
  by (auto simp: getListing_def find_Some_iff)

lemma purchases_purchaseAftermath [simp]: "purchases (purchaseAftermath s l b) = purchases s"
  by (simp add: purchaseAftermath_def Let_def incrementListingDownloads_def
      createNotification_def createAchievement_def)

lemma users_purchaseAftermath [simp]: "users (purchaseAftermath s l b) = users s"
  by (simp add: purchaseAftermath_def Let_def incrementListingDownloads_def
      createNotification_def createAchievement_def)

lemma getUser_purchaseAftermath [simp]: "getUser (purchaseAftermath s l b) k = getUser s k"
  by (simp add: getUser_def)

lemma getUser_createPurchase [simp]: "getUser (createPurchase s p) k = getUser s k"
  by (simp add: getUser_def createPurchase_def)

lemma getUser_createNotification [simp]: "getUser (createNotification s n) k = getUser s k"
  by (simp add: getUser_def createNotification_def)

text \<open>\<open>creditSeller\<close>, with the seller's row resolved.\<close>

lemma creditSeller_unfold:
  "creditSeller s sid price =
     (case getUser s sid of
        None \<Rightarrow> Done s
      | Some seller \<Rightarrow>
          if hasInfiniteBalance seller then Done s
          else if \<not> fitsDecimal12 (toFixed2 (parseFloat (balance seller) + price))
          then Threw s
          else if \<not> fitsDecimal12 (toFixed2 (parseFloat (totalEarnings seller) + price))
          then Threw (updateUserBalance s sid (toFixed2 (parseFloat (balance seller) + price)))
          else Done (updateUser
                       (updateUserBalance s sid (toFixed2 (parseFloat (balance seller) + price)))
                       sid (\<lambda>u. u\<lparr>totalEarnings :=
                                     toFixed2 (parseFloat (totalEarnings seller) + price)\<rparr>)))"
proof (cases "getUser s sid")
  case None
  then show ?thesis by (simp add: creditSeller_def)
next
  case (Some seller)
  then have "user_id seller = sid" by (rule getUser_id)
  with Some show ?thesis
    by (simp add: creditSeller_def Let_def writeBalance_def writeTotalEarnings_def)
qed

lemma creditSeller_purchases:
  "purchases (case creditSeller s sid price of Threw t \<Rightarrow> t | Done t \<Rightarrow> t) = purchases s"
  by (simp add: creditSeller_unfold updateUserBalance_def updateUser_def split: option.splits)

lemma purchaseListing_unfold:
  assumes "getListing s lid = Some l"
    and "getUser s A = Some a"
    and "\<not> hasPurchased s A lid"
    and "l_sellerId l \<noteq> A"
    and "hasInfiniteBalance a \<or> l_price l \<le> balance a"
  shows "purchaseListing s A lid newId txn =
     (if \<not> hasInfiniteBalance a \<and> \<not> fitsDecimal12 (balance a - l_price l)
      then (Inl PurchaseFailed, s)
      else
        (case creditSeller
                (if hasInfiniteBalance a then s
                 else updateUserBalance s A (balance a - l_price l))
                (l_sellerId l) (parseFloat (l_price l)) of
           Threw s2 \<Rightarrow> (Inl PurchaseFailed, s2)
         | Done s2 \<Rightarrow>
             (Inr \<lparr>p_id = newId, p_buyerId = A, p_sellerId = l_sellerId l,
                    p_listingId = l_id l, p_amount = l_price l, p_platformFee = 0,
                    p_transactionId = txn\<rparr>,
              purchaseAftermath
                (createPurchase s2
                   \<lparr>p_id = newId, p_buyerId = A, p_sellerId = l_sellerId l,
                    p_listingId = l_id l, p_amount = l_price l, p_platformFee = 0,
                    p_transactionId = txn\<rparr>) l a)))"
proof -
  have ida: "user_id a = A" using assms(2) by (rule getUser_id)
  have funds: "\<not> (\<not> hasInfiniteBalance a \<and> parseFloat (balance a) < parseFloat (l_price l))"
    using assms(5) by (auto simp: parseFloat_less)
  show ?thesis
  proof (cases "hasInfiniteBalance a")
    case True
    with assms(1-4) show ?thesis
      by (simp add: purchaseListing_def Let_def ida split: written.splits)
  next
    case False
    with funds have "\<not> parseFloat (balance a) < parseFloat (l_price l)" by simp
    with False assms(1-4) show ?thesis
      by (simp add: purchaseListing_def Let_def ida writeBalance_def toFixed2_sub
          split: written.splits)
  qed
qed


lemma setLocalMonth_next_month:
  assumes "validDate d" and "dayExistsNextMonth d"
  shows "spec_oneCalendarMonthAfter d (setLocalMonth d (dMonth d + 1))"
proof -
  let ?m = "dMonth d + 1"
  have fits: "dDate d \<le> daysInMonth (dYear d + ?m div 12) (?m mod 12)"
    using assms(2) by (simp add: dayExistsNextMonth_def)
  then have res: "setLocalMonth d (dMonth d + 1)
      = d\<lparr>dYear := dYear d + ?m div 12, dMonth := ?m mod 12\<rparr>"
    by (simp add: setLocalMonth_def Let_def)
  have count: "(dYear d + ?m div 12) * 12 + ?m mod 12 = dYear d * 12 + dMonth d + 1"
    by (simp add: algebra_simps)
  show ?thesis
    unfolding res spec_oneCalendarMonthAfter_def using fits count by simp
qed

lemma setMonth_next_month:
  assumes "validDate (localTime z d)"
    and "dayExistsNextMonth (localTime z d)"
    and "localTimeExists z (setLocalMonth (localTime z d) (dMonth (localTime z d) + 1))"
  shows "spec_oneCalendarMonthAfter (localTime z d)
           (localTime z (setMonth z d (getMonth z d + 1)))"
  using assms(3) setLocalMonth_next_month [OF assms(1,2)]
  by (simp add: setMonth_def getMonth_def localTimeExists_def)

lemma getUser_createVerificationPayment:
  "getUser (snd (createVerificationPayment z s uid newId clock1 clock2 clock3)) k
   = (if k = uid
      then map_option (\<lambda>u. u\<lparr>isVerified := True, verifiedAt := Some clock3,
                           verificationExpiry := Some (setMonth z clock2 (getMonth z clock2 + 1))\<rparr>)
             (getUser s uid)
      else getUser s k)"
proof -
  have "getUser (s\<lparr>verificationPayments := v\<rparr>) j = getUser s j" for v j
    by (simp add: getUser_def)
  then show ?thesis
    by (simp add: createVerificationPayment_def Let_def getUser_updateUser)
qed

lemma purchaseVerification_succeeds:
  assumes "getUser s A = Some a"
    and "\<not> isVerified a"
    and "hasInfiniteBalance a \<or> 500000 \<le> balance a"
  shows "\<exists>s'. purchaseVerification z s A newId clock1 clock2 clock3
           = (Inr \<lparr>vp_id = newId, vp_userId = A, vp_amount = 500000, vp_periodStart = clock1,
                   vp_periodEnd = setMonth z clock2 (getMonth z clock2 + 1),
                   vp_status = ''active''\<rparr>, s')
         \<and> verificationPayments s'
             = verificationPayments s
               @ [\<lparr>vp_id = newId, vp_userId = A, vp_amount = 500000, vp_periodStart = clock1,
                    vp_periodEnd = setMonth z clock2 (getMonth z clock2 + 1),
                    vp_status = ''active''\<rparr>]
         \<and> purchases s' = purchases s
         \<and> moneyGifts s' = moneyGifts s
         \<and> getUser s' A
             = Some (a\<lparr>balance := (if hasInfiniteBalance a then balance a else balance a - 500000),
                       isVerified := True, verifiedAt := Some clock3,
                       verificationExpiry := Some (setMonth z clock2 (getMonth z clock2 + 1))\<rparr>)"
proof -
  have ida: "user_id a = A" using assms(1) by (rule getUser_id)
  have funds: "\<not> (\<not> hasInfiniteBalance a \<and> parseFloat (balance a) < verificationCost)"
    using assms(3) by (auto simp: parseFloat_less_cost)
  define s1 where "s1 = (if \<not> hasInfiniteBalance a
       then updateUserBalance s A (toFixed2 (parseFloat (balance a) - verificationCost))
       else s)"
  have s1A: "getUser s1 A
      = Some (a\<lparr>balance := (if hasInfiniteBalance a then balance a else balance a - 500000)\<rparr>)"
    using assms(1) by (simp add: s1_def getUser_updateUserBalance toFixed2_cost)
  have s1frame: "verificationPayments s1 = verificationPayments s" "purchases s1 = purchases s"
    "moneyGifts s1 = moneyGifts s"
    by (simp_all add: s1_def updateUserBalance_def)
  let ?cv = "createVerificationPayment z s1 A newId clock1 clock2 clock3"
  let ?n = "\<lparr>n_userId = A, n_type = ''system'', n_title = ''Verification Active''\<rparr>"
  have run: "purchaseVerification z s A newId clock1 clock2 clock3
      = (Inr (fst ?cv), createNotification (snd ?cv) ?n)"
    using assms(1,2) funds
    by (simp add: purchaseVerification_def Let_def ida s1_def split_beta)
  have pay: "fst ?cv = \<lparr>vp_id = newId, vp_userId = A, vp_amount = 500000,
                   vp_periodStart = clock1,
                   vp_periodEnd = setMonth z clock2 (getMonth z clock2 + 1),
                   vp_status = ''active''\<rparr>"
    by (simp add: createVerificationPayment_def Let_def)
  have frames: "verificationPayments (snd ?cv) = verificationPayments s @ [fst ?cv]"
    "purchases (snd ?cv) = purchases s" "moneyGifts (snd ?cv) = moneyGifts s"
    by (simp_all add: createVerificationPayment_def Let_def updateUser_def s1frame)
  have usr: "getUser (createNotification (snd ?cv) ?n) A
      = Some (a\<lparr>balance := (if hasInfiniteBalance a then balance a else balance a - 500000),
                       isVerified := True, verifiedAt := Some clock3,
                       verificationExpiry := Some (setMonth z clock2 (getMonth z clock2 + 1))\<rparr>)"
    by (simp add: getUser_createVerificationPayment s1A)
  show ?thesis
    using run pay frames usr
    by (intro exI [of _ "createNotification (snd ?cv) ?n"]) (simp add: createNotification_def)
qed

lemma sweep_condition_on_users_never_true:
  "\<not> sql_where (sql_and (sql_eq (Some (isVerified u)) (Some True))
                   (sql_and (sql_lt (verificationExpiry u) (Some now))
                      (sql_eq (verificationGrantedBy u) None)))"
  by (simp add: sql_where_def sql_and_def sql_eq_def split: option.splits)

lemma users_checkAndExpireVerifications:
  "users (checkAndExpireVerifications s now) = users s"
  by (simp add: checkAndExpireVerifications_def Let_def sweep_condition_on_users_never_true)

lemma expire_rows_idempotent:
  "map (\<lambda>v. if sql_where
                 (sql_and (sql_eq (Some (vp_status v)) (Some ''active''))
                    (sql_lt (Some (vp_periodEnd v)) (Some now)))
             then v\<lparr>vp_status := ''expired''\<rparr> else v)
     (map (\<lambda>v. if sql_where
                 (sql_and (sql_eq (Some (vp_status v)) (Some ''active''))
                    (sql_lt (Some (vp_periodEnd v)) (Some now)))
             then v\<lparr>vp_status := ''expired''\<rparr> else v) vs)
   = map (\<lambda>v. if sql_where
                 (sql_and (sql_eq (Some (vp_status v)) (Some ''active''))
                    (sql_lt (Some (vp_periodEnd v)) (Some now)))
             then v\<lparr>vp_status := ''expired''\<rparr> else v) vs"
  by (induction vs) (simp_all add: sql_where_def sql_and_def sql_eq_def sql_lt_def)

section \<open>Marketplace purchase\<close>

text \<open>
  C1. A buyer \<open>A\<close> and a seller \<open>B\<close> with \<open>A \<noteq> B\<close>, \<open>A\<close> not yet owning the listing,
  and \<open>A\<close>'s balance at least the positive price (or \<open>A\<close> with unlimited funds). A
  successful purchase decreases \<open>A\<close>'s balance by exactly the price (unless \<open>A\<close> has
  unlimited funds), increases \<open>B\<close>'s balance and lifetime earnings by exactly the price
  (unless \<open>B\<close> has unlimited funds), and appends exactly one purchase row, naming \<open>A\<close>
  as buyer, \<open>B\<close> as seller and the price as amount. And the purchase is successful
  whenever the balances involved are within the range of their columns: \<open>A\<close>'s balance,
  and \<open>B\<close>'s balance and earnings once credited (unless the account has unlimited funds
  and is not written).
\<close>

theorem purchase_moves_price_from_buyer_to_seller:
  assumes "getListing s lid = Some l"
    and "getUser s A = Some a"
    and "getUser s (l_sellerId l) = Some b"
    and "l_sellerId l \<noteq> A"
    and "\<not> hasPurchased s A lid"
    and "hasInfiniteBalance a \<or> (0 < l_price l \<and> l_price l \<le> balance a)"
  shows "(\<forall>p s'. purchaseListing s A lid newId txn = (Inr p, s') \<longrightarrow>
            (\<exists>a' b'.
               getUser s' A = Some a'
               \<and> balance a' = (if hasInfiniteBalance a then balance a else balance a - l_price l)
               \<and> getUser s' (l_sellerId l) = Some b'
               \<and> balance b' = (if hasInfiniteBalance b then balance b else balance b + l_price l)
               \<and> totalEarnings b'
                   = (if hasInfiniteBalance b then totalEarnings b
                      else totalEarnings b + l_price l)
               \<and> purchases s' = purchases s @ [p]
               \<and> p_buyerId p = A \<and> p_sellerId p = l_sellerId l \<and> p_amount p = l_price l))
         \<and> ((hasInfiniteBalance a \<or> fitsDecimal12 (balance a))
              \<and> (hasInfiniteBalance b
                   \<or> fitsDecimal12 (balance b + l_price l)
                      \<and> fitsDecimal12 (totalEarnings b + l_price l))
            \<longrightarrow> (\<exists>p s'. purchaseListing s A lid newId txn = (Inr p, s')))"
proof -
  let ?B = "l_sellerId l"
  let ?p = "\<lparr>p_id = newId, p_buyerId = A, p_sellerId = ?B, p_listingId = l_id l,
             p_amount = l_price l, p_platformFee = 0, p_transactionId = txn\<rparr>"
  define s1 where
    "s1 = (if hasInfiniteBalance a then s else updateUserBalance s A (balance a - l_price l))"
  define nb where "nb = balance b + l_price l"
  define ne where "ne = totalEarnings b + l_price l"
  define s2 where
    "s2 = updateUser (updateUserBalance s1 ?B nb) ?B (\<lambda>u. u\<lparr>totalEarnings := ne\<rparr>)"
  have funds: "hasInfiniteBalance a \<or> l_price l \<le> balance a" using assms(6) by auto
  have run: "purchaseListing s A lid newId txn =
     (if \<not> hasInfiniteBalance a \<and> \<not> fitsDecimal12 (balance a - l_price l)
      then (Inl PurchaseFailed, s)
      else
        (case creditSeller s1 ?B (parseFloat (l_price l)) of
           Threw t \<Rightarrow> (Inl PurchaseFailed, t)
         | Done t \<Rightarrow> (Inr ?p, purchaseAftermath (createPurchase t ?p) l a)))"
    unfolding s1_def by (rule purchaseListing_unfold [OF assms(1,2,5,4) funds])
  have s1A: "getUser s1 A
      = Some (if hasInfiniteBalance a then a else a\<lparr>balance := balance a - l_price l\<rparr>)"
    using assms(2) by (simp add: s1_def getUser_updateUserBalance)
  have s1B: "getUser s1 ?B = Some b"
    using assms(3,4) by (simp add: s1_def getUser_updateUserBalance)
  have s1P: "purchases s1 = purchases s"
    by (simp add: s1_def updateUserBalance_def)
  have credit: "creditSeller s1 ?B (parseFloat (l_price l)) =
     (if hasInfiniteBalance b then Done s1
      else if \<not> fitsDecimal12 nb then Threw s1
      else if \<not> fitsDecimal12 ne then Threw (updateUserBalance s1 ?B nb)
      else Done s2)"
    by (simp add: creditSeller_unfold s1B toFixed2_add nb_def ne_def s2_def)
  have s2A: "getUser s2 A = getUser s1 A"
    using assms(4) by (simp add: s2_def getUser_updateUser getUser_updateUserBalance)
  have s2B: "getUser s2 ?B = Some (b\<lparr>balance := nb, totalEarnings := ne\<rparr>)"
    using s1B by (simp add: s2_def getUser_updateUser getUser_updateUserBalance)
  have s2P: "purchases s2 = purchases s1"
    by (simp add: s2_def updateUser_def updateUserBalance_def)
  show ?thesis
  proof (intro conjI allI impI)
    fix p s'
    assume ok: "purchaseListing s A lid newId txn = (Inr p, s')"
    show "\<exists>a' b'.
               getUser s' A = Some a'
               \<and> balance a' = (if hasInfiniteBalance a then balance a else balance a - l_price l)
               \<and> getUser s' ?B = Some b'
               \<and> balance b' = (if hasInfiniteBalance b then balance b else balance b + l_price l)
               \<and> totalEarnings b'
                   = (if hasInfiniteBalance b then totalEarnings b
                      else totalEarnings b + l_price l)
               \<and> purchases s' = purchases s @ [p]
               \<and> p_buyerId p = A \<and> p_sellerId p = ?B \<and> p_amount p = l_price l"
    proof (cases "hasInfiniteBalance b")
      case True
      with ok run credit have p: "p = ?p"
        and s': "s' = purchaseAftermath (createPurchase s1 ?p) l a"
        by (auto split: if_splits)
      have "getUser s' A = getUser s1 A" "getUser s' ?B = Some b"
        by (simp_all add: s' s1B)
      moreover have "purchases s' = purchases s @ [?p]"
        by (simp add: s' s1P createPurchase_def)
      ultimately have "getUser s' A = getUser s1 A" "getUser s' ?B = Some b"
        "purchases s' = purchases s @ [?p]" by simp_all
      with True s1A p show ?thesis by auto
    next
      case False
      with ok run credit have p: "p = ?p"
        and s': "s' = purchaseAftermath (createPurchase s2 ?p) l a"
        by (auto split: if_splits)
      have "getUser s' A = getUser s1 A"
        "getUser s' ?B = Some (b\<lparr>balance := nb, totalEarnings := ne\<rparr>)"
        by (simp_all add: s' s2A s2B)
      moreover have "purchases s' = purchases s @ [?p]"
        by (simp add: s' s2P s1P createPurchase_def)
      ultimately have "getUser s' A = getUser s1 A"
        "getUser s' ?B = Some (b\<lparr>balance := nb, totalEarnings := ne\<rparr>)"
        "purchases s' = purchases s @ [?p]" by simp_all
      with False s1A p show ?thesis by (auto simp: nb_def ne_def)
    qed
  next
    assume range: "(hasInfiniteBalance a \<or> fitsDecimal12 (balance a))
              \<and> (hasInfiniteBalance b
                   \<or> fitsDecimal12 (balance b + l_price l)
                      \<and> fitsDecimal12 (totalEarnings b + l_price l))"
    have debit: "\<not> (\<not> hasInfiniteBalance a \<and> \<not> fitsDecimal12 (balance a - l_price l))"
      using range assms(6) by (auto simp: fitsDecimal12_def)
    have "\<exists>t. creditSeller s1 ?B (parseFloat (l_price l)) = Done t"
      using range credit by (auto simp: nb_def ne_def)
    then obtain t where "creditSeller s1 ?B (parseFloat (l_price l)) = Done t" ..
    with run debit show "\<exists>p s'. purchaseListing s A lid newId txn = (Inr p, s')"
      by simp
  qed
qed

theorem purchase_moves_price_from_buyer_to_seller_witness:
  "getListing sampleDb ''L1'' = Some listing1
   \<and> getUser sampleDb ''alice'' = Some alice
   \<and> getUser sampleDb (l_sellerId listing1) = Some bob
   \<and> l_sellerId listing1 \<noteq> ''alice''
   \<and> \<not> hasPurchased sampleDb ''alice'' ''L1''
   \<and> (hasInfiniteBalance alice \<or> (0 < l_price listing1 \<and> l_price listing1 \<le> balance alice))
   \<and> (hasInfiniteBalance alice \<or> fitsDecimal12 (balance alice))
   \<and> (hasInfiniteBalance bob
        \<or> fitsDecimal12 (balance bob + l_price listing1)
           \<and> fitsDecimal12 (totalEarnings bob + l_price listing1))
   \<and> (\<exists>p s' a' b'.
         purchaseListing sampleDb ''alice'' ''L1'' ''P1'' ''TXN1'' = (Inr p, s')
         \<and> getUser s' ''alice'' = Some a' \<and> balance a' = 200000
         \<and> getUser s' ''bob'' = Some b' \<and> balance b' = 55000 \<and> totalEarnings b' = 50000
         \<and> purchases s' = [p]
         \<and> p_buyerId p = ''alice'' \<and> p_sellerId p = ''bob'' \<and> p_amount p = 50000)"
proof -
  have h1: "getListing sampleDb ''L1'' = Some listing1"
    by (simp add: sample_defs getListing_def)
  have h2: "getUser sampleDb ''alice'' = Some alice"
    by (simp add: sample_defs getUser_def)
  have h3: "getUser sampleDb (l_sellerId listing1) = Some bob"
    by (simp add: sample_defs getUser_def)
  have h4: "l_sellerId listing1 \<noteq> ''alice''" by (simp add: sample_defs)
  have h5: "\<not> hasPurchased sampleDb ''alice'' ''L1''"
    by (simp add: sample_defs hasPurchased_def)
  have h6: "hasInfiniteBalance alice \<or> (0 < l_price listing1 \<and> l_price listing1 \<le> balance alice)"
    by (simp add: sample_defs)
  have h7: "hasInfiniteBalance alice \<or> fitsDecimal12 (balance alice)"
    by (simp add: sample_defs fitsDecimal12_def)
  have h8: "hasInfiniteBalance bob
        \<or> fitsDecimal12 (balance bob + l_price listing1)
           \<and> fitsDecimal12 (totalEarnings bob + l_price listing1)"
    by (simp add: sample_defs fitsDecimal12_def)
  have vals: "l_sellerId listing1 = ''bob''" "l_price listing1 = 50000" "balance alice = 250000"
    "balance bob = 5000" "totalEarnings bob = 0" "\<not> hasInfiniteBalance alice"
    "\<not> hasInfiniteBalance bob" "purchases sampleDb = []"
    by (simp_all add: sample_defs)
  note inst = purchase_moves_price_from_buyer_to_seller
                [OF h1 h2 h3 h4 h5 h6, of "''P1''" "''TXN1''"]
  from inst h7 h8 obtain p s'
    where ok: "purchaseListing sampleDb ''alice'' ''L1'' ''P1'' ''TXN1'' = (Inr p, s')"
    by blast
  with inst have "\<exists>a' b'.
         getUser s' ''alice'' = Some a' \<and> balance a' = 200000
         \<and> getUser s' ''bob'' = Some b' \<and> balance b' = 55000 \<and> totalEarnings b' = 50000
         \<and> purchases s' = [p]
         \<and> p_buyerId p = ''alice'' \<and> p_sellerId p = ''bob'' \<and> p_amount p = 50000"
    by (simp add: vals)
  with ok h1 h2 h3 h4 h5 h6 h7 h8 show ?thesis by blast
qed

text \<open>
  C4 (as stated it fails: the ownership and own-listing checks run before the balance
  check). For the seller of a listing priced above the seller's own balance, the
  purchase is refused as a purchase of one's own listing, not for insufficient funds.
\<close>

theorem own_listing_above_balance_is_not_insufficient_funds:
  "getUser sampleDb ''bob'' = Some bob
   \<and> getListing sampleDb ''L1'' = Some listing1
   \<and> hasInfiniteBalance bob = False
   \<and> balance bob < l_price listing1
   \<and> purchaseListing sampleDb ''bob'' ''L1'' ''P1'' ''TXN1'' = (Inl OwnListing, sampleDb)
   \<and> OwnListing \<noteq> InsufficientBalance"
  by (simp add: sample_defs getUser_def getListing_def purchaseListing_def hasPurchased_def)

text \<open>
  C4, amended. A buyer \<open>A\<close> without unlimited funds who is not the seller of the listing
  and does not own it yet, and a listing priced above \<open>A\<close>'s balance: the purchase is
  refused for insufficient balance and the database is returned as it was (no debit, no
  credit, no new row).
\<close>

theorem purchase_above_balance_is_refused:
  assumes "getListing s lid = Some l"
    and "getUser s A = Some a"
    and "\<not> hasInfiniteBalance a"
    and "balance a < l_price l"
    and "\<not> hasPurchased s A lid"
    and "l_sellerId l \<noteq> A"
  shows "purchaseListing s A lid newId txn = (Inl InsufficientBalance, s)"
  using assms by (simp add: purchaseListing_def Let_def parseFloat_less)

theorem purchase_above_balance_is_refused_witness:
  "getListing sampleDb ''L2'' = Some listing2
   \<and> getUser sampleDb ''carol'' = Some carol
   \<and> \<not> hasInfiniteBalance carol
   \<and> balance carol < l_price listing2
   \<and> \<not> hasPurchased sampleDb ''carol'' ''L2''
   \<and> l_sellerId listing2 \<noteq> ''carol''
   \<and> purchaseListing sampleDb ''carol'' ''L2'' ''P1'' ''TXN1'' = (Inl InsufficientBalance, sampleDb)"
proof -
  have h1: "getListing sampleDb ''L2'' = Some listing2"
    by (simp add: sample_defs getListing_def)
  have h2: "getUser sampleDb ''carol'' = Some carol"
    by (simp add: sample_defs getUser_def)
  have h3: "\<not> hasInfiniteBalance carol" by (simp add: sample_defs)
  have h4: "balance carol < l_price listing2" by (simp add: sample_defs)
  have h5: "\<not> hasPurchased sampleDb ''carol'' ''L2''"
    by (simp add: sample_defs hasPurchased_def)
  have h6: "l_sellerId listing2 \<noteq> ''carol''" by (simp add: sample_defs)
  from purchase_above_balance_is_refused [OF h1 h2 h3 h4 h5 h6, of "''P1''" "''TXN1''"]
    h1 h2 h3 h4 h5 h6
  show ?thesis by simp
qed

text \<open>
  C10. For a buyer and a listing that exist, a request by a buyer who already has a
  purchase row for the listing is refused with the message "You already own this file"
  before any balance is touched, the database being returned as it was; and the handler
  keeps the purchase table at no more than one row for each pair of a buyer and a
  listing.
\<close>

theorem repeated_purchase_is_refused:
  "(getListing s lid = Some l \<and> getUser s A = Some a \<and> hasPurchased s A lid
      \<longrightarrow> purchaseListing s A lid newId txn = (Inl AlreadyOwned, s)
          \<and> message AlreadyOwned = ''You already own this file'')
   \<and> (onePurchasePerPair s \<longrightarrow> onePurchasePerPair (snd (purchaseListing s A lid newId txn)))"
proof (intro conjI impI)
  assume "getListing s lid = Some l \<and> getUser s A = Some a \<and> hasPurchased s A lid"
  then show "purchaseListing s A lid newId txn = (Inl AlreadyOwned, s)"
    by (simp add: purchaseListing_def)
next
  show "message AlreadyOwned = ''You already own this file''" by simp
next
  assume inv: "onePurchasePerPair s"
  show "onePurchasePerPair (snd (purchaseListing s A lid newId txn))"
  proof (cases "getListing s lid")
    case None
    with inv show ?thesis by (simp add: purchaseListing_def)
  next
    case (Some l')
    note L = this
    show ?thesis
    proof (cases "getUser s A")
      case None
      with L inv show ?thesis by (simp add: purchaseListing_def)
    next
      case (Some buyer)
      have idb: "user_id buyer = A" using Some by (rule getUser_id)
      have idl: "l_id l' = lid" using L by (rule getListing_id)
      show ?thesis
      proof (cases "hasPurchased s A lid")
        case True
        with L Some inv show ?thesis by (simp add: purchaseListing_def)
      next
        case False
        then have fresh: "(A, lid) \<notin> (\<lambda>p. (p_buyerId p, p_listingId p)) ` set (purchases s)"
          by (simp add: hasPurchased_def find_None_pairs)
        define s1 where
          "s1 = (if hasInfiniteBalance buyer then s
                 else updateUserBalance s A (balance buyer - l_price l'))"
        have s1P: "purchases s1 = purchases s"
          by (simp add: s1_def updateUserBalance_def)
        show ?thesis
        proof (cases "l_sellerId l' = A
                      \<or> \<not> hasInfiniteBalance buyer \<and> balance buyer < l_price l'")
          case True
          with L Some False inv show ?thesis
            by (auto simp: purchaseListing_def Let_def parseFloat_less)
        next
          case other: False
          then have "purchaseListing s A lid newId txn =
             (if \<not> hasInfiniteBalance buyer \<and> \<not> fitsDecimal12 (balance buyer - l_price l')
              then (Inl PurchaseFailed, s)
              else
                (case creditSeller s1 (l_sellerId l') (parseFloat (l_price l')) of
                   Threw s2 \<Rightarrow> (Inl PurchaseFailed, s2)
                 | Done s2 \<Rightarrow>
                     (Inr \<lparr>p_id = newId, p_buyerId = A, p_sellerId = l_sellerId l',
                            p_listingId = l_id l', p_amount = l_price l', p_platformFee = 0,
                            p_transactionId = txn\<rparr>,
                      purchaseAftermath
                        (createPurchase s2
                           \<lparr>p_id = newId, p_buyerId = A, p_sellerId = l_sellerId l',
                            p_listingId = l_id l', p_amount = l_price l', p_platformFee = 0,
                            p_transactionId = txn\<rparr>) l' buyer)))"
            unfolding s1_def by (intro purchaseListing_unfold L Some False) auto
          moreover have "purchases t = purchases s"
            if "creditSeller s1 (l_sellerId l') (parseFloat (l_price l')) = Threw t
                \<or> creditSeller s1 (l_sellerId l') (parseFloat (l_price l')) = Done t" for t
            using that creditSeller_purchases [of s1 "l_sellerId l'" "parseFloat (l_price l')"] s1P
            by auto
          ultimately show ?thesis
            using inv fresh idl
            by (auto simp: onePurchasePerPair_def createPurchase_def split: written.splits)
        qed
      qed
    qed
  qed
qed

theorem repeated_purchase_is_refused_witness:
  "getListing aliceOwnsListing1 ''L1'' = Some listing1
   \<and> getUser aliceOwnsListing1 ''alice'' = Some alice
   \<and> hasPurchased aliceOwnsListing1 ''alice'' ''L1''
   \<and> onePurchasePerPair aliceOwnsListing1
   \<and> purchaseListing aliceOwnsListing1 ''alice'' ''L1'' ''P1'' ''TXN1''
       = (Inl AlreadyOwned, aliceOwnsListing1)
   \<and> onePurchasePerPair (snd (purchaseListing aliceOwnsListing1 ''alice'' ''L1'' ''P1'' ''TXN1''))"
proof -
  have h1: "getListing aliceOwnsListing1 ''L1'' = Some listing1"
    by (simp add: sample_defs getListing_def)
  have h2: "getUser aliceOwnsListing1 ''alice'' = Some alice"
    by (simp add: sample_defs getUser_def)
  have h3: "hasPurchased aliceOwnsListing1 ''alice'' ''L1''"
    by (simp add: sample_defs hasPurchased_def)
  have h4: "onePurchasePerPair aliceOwnsListing1"
    by (simp add: sample_defs onePurchasePerPair_def)
  from repeated_purchase_is_refused
         [of aliceOwnsListing1 "''L1''" listing1 "''alice''" alice "''P1''" "''TXN1''"]
    h1 h2 h3 h4
  show ?thesis by simp
qed




section \<open>Verification purchase\<close>

text \<open>
  C7. An account whose verified flag is already true is refused with the
  already-verified error before any effect: the database is returned as it was, so the
  balance is unchanged, no verification payment is created and no receipt is written.
\<close>

theorem verified_account_cannot_purchase_verification:
  assumes "getUser s A = Some a" and "isVerified a"
  shows "purchaseVerification z s A newId clock1 clock2 clock3 = (Inl AlreadyVerified, s)"
  using assms by (simp add: purchaseVerification_def)

theorem verified_account_cannot_purchase_verification_witness:
  "getUser sampleDb ''dave'' = Some dave \<and> isVerified dave
   \<and> purchaseVerification utc sampleDb ''dave'' ''V1'' february_first february_first
         february_first
       = (Inl AlreadyVerified, sampleDb)"
proof -
  have u: "getUser sampleDb ''dave'' = Some dave"
    by (simp add: sample_defs getUser_def)
  have v: "isVerified dave" by (simp add: sample_defs)
  from u v verified_account_cannot_purchase_verification [OF u v] show ?thesis by simp
qed

text \<open>
  C2 (as stated it fails: the verification handler writes no purchase row and no gift
  row at all, and writes the payment row with the fee for every account). An account
  without unlimited funds buys verification: the payment row is created, and the
  purchase table and the gift table are as empty as before. An account with unlimited
  funds buys verification: it is not debited, and its payment row records the fee of
  5000.00 all the same.
\<close>

theorem verification_purchase_writes_no_receipt:
  "getUser sampleDb ''carol'' = Some carol
   \<and> hasInfiniteBalance carol = False
   \<and> fst (purchaseVerification utc sampleDb ''carol'' ''V1'' mid_january mid_january mid_january)
       = Inr \<lparr>vp_id = ''V1'', vp_userId = ''carol'', vp_amount = 500000,
               vp_periodStart = mid_january,
               vp_periodEnd = \<lparr>dYear = 2026, dMonth = 1, dDate = 15, dTime = 43200000\<rparr>,
               vp_status = ''active''\<rparr>
   \<and> purchases sampleDb = []
   \<and> purchases (snd (purchaseVerification utc sampleDb ''carol'' ''V1'' mid_january mid_january
                        mid_january)) = []
   \<and> moneyGifts (snd (purchaseVerification utc sampleDb ''carol'' ''V1'' mid_january mid_january
                         mid_january)) = []
   \<and> getUser sampleDb ''erin'' = Some erin
   \<and> hasInfiniteBalance erin = True
   \<and> fst (purchaseVerification utc sampleDb ''erin'' ''V1'' mid_january mid_january mid_january)
       = Inr \<lparr>vp_id = ''V1'', vp_userId = ''erin'', vp_amount = 500000,
               vp_periodStart = mid_january,
               vp_periodEnd = \<lparr>dYear = 2026, dMonth = 1, dDate = 15, dTime = 43200000\<rparr>,
               vp_status = ''active''\<rparr>
   \<and> map_option balance
         (getUser (snd (purchaseVerification utc sampleDb ''erin'' ''V1'' mid_january mid_january
                          mid_january))
            ''erin'')
       = Some (balance erin)"
  by (simp add: sample_defs storage_defs purchaseVerification_def Let_def utc_def
      parseFloat_def verificationCost_def setMonth_def getMonth_def setLocalMonth_def
      daysInMonth_def)

text \<open>
  C2, amended. Every verification purchase by an account that is not verified and has
  the fee (or unlimited funds) creates exactly one verification payment row, recording
  the fixed fee of 5000.00, and no purchase row or gift row; the account is debited by
  the fee unless it has unlimited funds, in which case its balance is unchanged.
\<close>

theorem verification_purchase_debits_without_receipt:
  assumes "getUser s A = Some a"
    and "\<not> isVerified a"
    and "hasInfiniteBalance a \<or> 500000 \<le> balance a"
  shows "\<exists>payment s' a'.
           purchaseVerification z s A newId clock1 clock2 clock3 = (Inr payment, s')
           \<and> verificationPayments s' = verificationPayments s @ [payment]
           \<and> vp_userId payment = A \<and> vp_amount payment = 500000
           \<and> purchases s' = purchases s
           \<and> moneyGifts s' = moneyGifts s
           \<and> getUser s' A = Some a'
           \<and> balance a' = (if hasInfiniteBalance a then balance a else balance a - 500000)"
proof -
  let ?end = "setMonth z clock2 (getMonth z clock2 + 1)"
  from purchaseVerification_succeeds [OF assms, of z newId clock1 clock2 clock3]
  obtain s' where
    "purchaseVerification z s A newId clock1 clock2 clock3
       = (Inr \<lparr>vp_id = newId, vp_userId = A, vp_amount = 500000, vp_periodStart = clock1,
               vp_periodEnd = ?end, vp_status = ''active''\<rparr>, s')"
    "verificationPayments s'
       = verificationPayments s
         @ [\<lparr>vp_id = newId, vp_userId = A, vp_amount = 500000, vp_periodStart = clock1,
              vp_periodEnd = ?end, vp_status = ''active''\<rparr>]"
    "purchases s' = purchases s" "moneyGifts s' = moneyGifts s"
    "getUser s' A
       = Some (a\<lparr>balance := (if hasInfiniteBalance a then balance a else balance a - 500000),
                 isVerified := True, verifiedAt := Some clock3,
                 verificationExpiry := Some ?end\<rparr>)"
    by blast
  then show ?thesis by (intro exI conjI) (assumption | simp)+
qed

theorem verification_purchase_debits_without_receipt_witness:
  "getUser sampleDb ''erin'' = Some erin
   \<and> \<not> isVerified erin
   \<and> (hasInfiniteBalance erin \<or> 500000 \<le> balance erin)
   \<and> (\<exists>payment s' a'.
         purchaseVerification utc sampleDb ''erin'' ''V2'' february_first february_first
             february_first
           = (Inr payment, s')
         \<and> verificationPayments s' = [payment]
         \<and> vp_userId payment = ''erin'' \<and> vp_amount payment = 500000
         \<and> purchases s' = []
         \<and> moneyGifts s' = []
         \<and> getUser s' ''erin'' = Some a'
         \<and> balance a' = 250000)"
proof -
  have h1: "getUser sampleDb ''erin'' = Some erin"
    by (simp add: sample_defs getUser_def)
  have h2: "\<not> isVerified erin" by (simp add: sample_defs)
  have h3: "hasInfiniteBalance erin \<or> 500000 \<le> balance erin" by (simp add: sample_defs)
  have vals: "balance erin = 250000" "hasInfiniteBalance erin"
    "verificationPayments sampleDb = []" "purchases sampleDb = []" "moneyGifts sampleDb = []"
    by (simp_all add: sample_defs)
  from verification_purchase_debits_without_receipt
         [OF h1 h2 h3, of utc "''V2''" february_first february_first february_first]
  have "\<exists>payment s' a'.
         purchaseVerification utc sampleDb ''erin'' ''V2'' february_first february_first
             february_first
           = (Inr payment, s')
         \<and> verificationPayments s' = [payment]
         \<and> vp_userId payment = ''erin'' \<and> vp_amount payment = 500000
         \<and> purchases s' = []
         \<and> moneyGifts s' = []
         \<and> getUser s' ''erin'' = Some a'
         \<and> balance a' = 250000"
    by (simp add: vals)
  with h1 h2 h3 show ?thesis by blast
qed

text \<open>
  C5 (as stated it fails on the last days of a month). On a server whose local time is
  UTC, a purchase on 31 January 2026 gets a period that ends on 3 March 2026, which is
  not one calendar month after its start.
\<close>

theorem end_of_january_period_ends_in_march:
  "getUser sampleDb ''carol'' = Some carol
   \<and> isVerified carol = False
   \<and> balance carol = 500000
   \<and> validDate end_of_january
   \<and> fst (purchaseVerification utc sampleDb ''carol'' ''V1'' end_of_january end_of_january
            end_of_january)
       = Inr \<lparr>vp_id = ''V1'', vp_userId = ''carol'', vp_amount = 500000,
               vp_periodStart = end_of_january,
               vp_periodEnd = \<lparr>dYear = 2026, dMonth = 2, dDate = 3, dTime = 43200000\<rparr>,
               vp_status = ''active''\<rparr>
   \<and> \<not> spec_oneCalendarMonthAfter end_of_january
         \<lparr>dYear = 2026, dMonth = 2, dDate = 3, dTime = 43200000\<rparr>"
  by (simp add: sample_defs storage_defs purchaseVerification_def Let_def validDate_def utc_def
      parseFloat_def verificationCost_def setMonth_def getMonth_def setLocalMonth_def
      daysInMonth_def isLeapYear_def spec_oneCalendarMonthAfter_def)

text \<open>
  C5, amended. An account \<open>A\<close> that is not verified and has a balance of at least 5000.00
  (or unlimited funds) buys verification, where the clock reads for the start and for
  the end of the period give the same instant, the day of the month of that instant, in
  the local time of the server, exists in the following month, and the local time one
  month later exists in the server's time zone (no daylight-saving change skips it).
  Then \<open>A\<close> is debited by exactly 5000.00 (unless it has unlimited funds), exactly one
  verification payment row is created, with status "active", starting at that instant
  and ending exactly one calendar month later in the local time of the server, \<open>A\<close>'s
  verified flag is set and \<open>A\<close>'s verification expiry is that period end. In particular a
  balance of 5000.00 becomes 0.00.
\<close>

theorem verification_purchase_opens_one_month_window:
  assumes "getUser s A = Some a"
    and "\<not> isVerified a"
    and "hasInfiniteBalance a \<or> 500000 \<le> balance a"
    and "clock2 = clock1"
    and "validDate (localTime z clock1)"
    and "dayExistsNextMonth (localTime z clock1)"
    and "localTimeExists z
           (setLocalMonth (localTime z clock1) (dMonth (localTime z clock1) + 1))"
  shows "\<exists>payment s' a'.
           purchaseVerification z s A newId clock1 clock2 clock3 = (Inr payment, s')
           \<and> verificationPayments s' = verificationPayments s @ [payment]
           \<and> vp_userId payment = A
           \<and> vp_status payment = ''active''
           \<and> vp_periodStart payment = clock1
           \<and> spec_oneCalendarMonthAfter (localTime z (vp_periodStart payment))
                (localTime z (vp_periodEnd payment))
           \<and> getUser s' A = Some a'
           \<and> isVerified a'
           \<and> verificationExpiry a' = Some (vp_periodEnd payment)
           \<and> balance a' = (if hasInfiniteBalance a then balance a else balance a - 500000)"
proof -
  let ?end = "setMonth z clock1 (getMonth z clock1 + 1)"
  from purchaseVerification_succeeds [OF assms(1,2,3), of z newId clock1 clock1 clock3]
  obtain s' where
    "purchaseVerification z s A newId clock1 clock1 clock3
       = (Inr \<lparr>vp_id = newId, vp_userId = A, vp_amount = 500000, vp_periodStart = clock1,
               vp_periodEnd = ?end, vp_status = ''active''\<rparr>, s')"
    "verificationPayments s'
       = verificationPayments s
         @ [\<lparr>vp_id = newId, vp_userId = A, vp_amount = 500000, vp_periodStart = clock1,
              vp_periodEnd = ?end, vp_status = ''active''\<rparr>]"
    "getUser s' A
       = Some (a\<lparr>balance := (if hasInfiniteBalance a then balance a else balance a - 500000),
                 isVerified := True, verifiedAt := Some clock3,
                 verificationExpiry := Some ?end\<rparr>)"
    by blast
  moreover note setMonth_next_month [OF assms(5,6,7)]
  ultimately show ?thesis
    unfolding assms(4) by (intro exI conjI) (assumption | simp)+
qed

theorem verification_purchase_opens_one_month_window_witness:
  "getUser sampleDb ''carol'' = Some carol
   \<and> \<not> isVerified carol
   \<and> (hasInfiniteBalance carol \<or> 500000 \<le> balance carol)
   \<and> validDate (localTime utc mid_january)
   \<and> dayExistsNextMonth (localTime utc mid_january)
   \<and> localTimeExists utc
        (setLocalMonth (localTime utc mid_january) (dMonth (localTime utc mid_january) + 1))
   \<and> balance carol = 500000
   \<and> (\<exists>payment s' a'.
         purchaseVerification utc sampleDb ''carol'' ''V1'' mid_january mid_january mid_january
           = (Inr payment, s')
         \<and> verificationPayments s' = [payment]
         \<and> vp_userId payment = ''carol''
         \<and> vp_status payment = ''active''
         \<and> vp_periodStart payment = mid_january
         \<and> spec_oneCalendarMonthAfter (localTime utc (vp_periodStart payment))
              (localTime utc (vp_periodEnd payment))
         \<and> getUser s' ''carol'' = Some a'
         \<and> isVerified a'
         \<and> verificationExpiry a' = Some (vp_periodEnd payment)
         \<and> balance a' = 0)"
proof -
  have h1: "getUser sampleDb ''carol'' = Some carol"
    by (simp add: sample_defs getUser_def)
  have h2: "\<not> isVerified carol" by (simp add: sample_defs)
  have h3: "hasInfiniteBalance carol \<or> 500000 \<le> balance carol" by (simp add: sample_defs)
  have h4: "mid_january = mid_january" ..
  have h5: "validDate (localTime utc mid_january)"
    by (simp add: sample_defs utc_def validDate_def daysInMonth_def)
  have h6: "dayExistsNextMonth (localTime utc mid_january)"
    by (simp add: sample_defs utc_def dayExistsNextMonth_def daysInMonth_def isLeapYear_def)
  have h7: "localTimeExists utc
        (setLocalMonth (localTime utc mid_january) (dMonth (localTime utc mid_january) + 1))"
    by (simp add: utc_def localTimeExists_def)
  have vals: "balance carol = 500000" "\<not> hasInfiniteBalance carol"
    "verificationPayments sampleDb = []"
    by (simp_all add: sample_defs)
  from verification_purchase_opens_one_month_window
         [OF h1 h2 h3 h4 h5 h6 h7, of "''V1''" mid_january]
  have "\<exists>payment s' a'.
         purchaseVerification utc sampleDb ''carol'' ''V1'' mid_january mid_january mid_january
           = (Inr payment, s')
         \<and> verificationPayments s' = [payment]
         \<and> vp_userId payment = ''carol''
         \<and> vp_status payment = ''active''
         \<and> vp_periodStart payment = mid_january
         \<and> spec_oneCalendarMonthAfter (localTime utc (vp_periodStart payment))
              (localTime utc (vp_periodEnd payment))
         \<and> getUser s' ''carol'' = Some a'
         \<and> isVerified a'
         \<and> verificationExpiry a' = Some (vp_periodEnd payment)
         \<and> balance a' = 0"
    by (simp add: vals)
  with h1 h2 h3 h5 h6 h7 vals(1) show ?thesis by blast
qed

section \<open>Expiry sweep\<close>

text \<open>
  C3 (the code departs from it). The condition of the sweep's update of \<open>users\<close> compares
  \<open>verification_granted_by\<close> with \<open>NULL\<close> by \<open>=\<close>, which is never true, so the update
  touches no row: an account that is verified, whose expiry is in the past and whose
  verification no administrator granted stays verified, with its expiry in place.
\<close>

theorem sweep_leaves_lapsed_verification_in_place:
  "getUser sampleDb ''dave'' = Some dave
   \<and> isVerified dave = True
   \<and> verificationExpiry dave = Some \<lparr>dYear = 2026, dMonth = 0, dDate = 15, dTime = 0\<rparr>
   \<and> verificationGrantedBy dave = None
   \<and> dateKey \<lparr>dYear = 2026, dMonth = 0, dDate = 15, dTime = 0\<rparr> < dateKey february_first
   \<and> getUser (checkAndExpireVerifications sampleDb february_first) ''dave'' = Some dave"
  by (simp add: sample_defs getUser_def checkAndExpireVerifications_def Let_def dateKey_def
      sql_where_def sql_and_def sql_eq_def sql_lt_def)

text \<open>
  C9. Running the sweep twice at the same instant leaves the database as one run does:
  the second run changes no payment status and no account.
\<close>

theorem sweep_twice_is_sweep_once:
  "checkAndExpireVerifications (checkAndExpireVerifications s now) now
   = checkAndExpireVerifications s now"
  by (simp add: checkAndExpireVerifications_def Let_def sweep_condition_on_users_never_true
      expire_rows_idempotent)

section \<open>Balance invariant\<close>

text \<open>
  C8 (the code departs from it). The price of a listing is never checked for its sign.
  Buying a listing priced at -100.00 from a seller who holds 50.00 and has no unlimited
  funds succeeds and leaves the seller with a balance of -50.00.
\<close>

theorem negative_price_drives_seller_below_zero:
  "getListing sampleDb ''L3'' = Some listing3
   \<and> l_price listing3 = - 10000
   \<and> getUser sampleDb ''bob'' = Some bob
   \<and> hasInfiniteBalance bob = False
   \<and> balance bob = 5000
   \<and> fst (purchaseListing sampleDb ''alice'' ''L3'' ''P3'' ''TXN3'')
       = Inr \<lparr>p_id = ''P3'', p_buyerId = ''alice'', p_sellerId = ''bob'', p_listingId = ''L3'',
               p_amount = - 10000, p_platformFee = 0, p_transactionId = ''TXN3''\<rparr>
   \<and> getUser (snd (purchaseListing sampleDb ''alice'' ''L3'' ''P3'' ''TXN3'')) ''bob''
       = Some (bob\<lparr>balance := - 5000, totalEarnings := - 10000\<rparr>)"
  by (simp add: sample_defs storage_defs purchaseListing_def creditSeller_def
      purchaseAftermath_def Let_def toFixed2_def parseFloat_def floor_numeral_quotient)

text \<open>
  Where the invariant does hold: a purchase of a listing whose price is not negative, a
  verification purchase and a gift keep every balance non-negative, whether they succeed
  or fail on the way, and none of the three changes the balance of an account with
  unlimited funds.
\<close>

lemma balancesNonNegative_updateUserBalance:
  "balancesNonNegative s \<Longrightarrow> 0 \<le> b \<Longrightarrow> balancesNonNegative (updateUserBalance s uid b)"
  by (auto simp: balancesNonNegative_def updateUserBalance_def list_all_iff)

lemma balancesNonNegative_updateUser:
  assumes "balancesNonNegative s" and "\<And>u. balance (f u) = balance u"
  shows "balancesNonNegative (updateUser s uid f)"
  using assms by (auto simp: balancesNonNegative_def updateUser_def list_all_iff)

lemma balancesNonNegative_users:
  "users t = users s \<Longrightarrow> balancesNonNegative t = balancesNonNegative s"
  by (simp add: balancesNonNegative_def)

lemma balancesNonNegative_getUser:
  "balancesNonNegative s \<Longrightarrow> getUser s k = Some u \<Longrightarrow> 0 \<le> balance u"
  by (auto simp: balancesNonNegative_def getUser_def list_all_iff find_Some_iff)

lemma toFixed2_nonneg: "0 \<le> x \<Longrightarrow> 0 \<le> toFixed2 x"
  by (simp add: toFixed2_def)

lemma parseFloat_nonneg: "0 \<le> parseFloat c \<longleftrightarrow> 0 \<le> c"
  by (simp add: parseFloat_def)

lemma balancesNonNegative_creditSeller:
  assumes "balancesNonNegative s" and "0 \<le> price"
  shows "balancesNonNegative (case creditSeller s sid price of Threw t \<Rightarrow> t | Done t \<Rightarrow> t)"
proof (cases "getUser s sid")
  case None
  with assms show ?thesis by (simp add: creditSeller_unfold)
next
  case (Some seller)
  then have "0 \<le> balance seller" using assms(1) by (simp add: balancesNonNegative_getUser)
  then have "0 \<le> toFixed2 (parseFloat (balance seller) + price)"
    using assms(2) by (simp add: toFixed2_nonneg parseFloat_nonneg)
  with Some assms(1) show ?thesis
    by (simp add: creditSeller_unfold balancesNonNegative_updateUser
        balancesNonNegative_updateUserBalance)
qed

lemma purchaseListing_keeps_balances_nonneg:
  assumes "balancesNonNegative s"
    and "\<And>l. getListing s lid = Some l \<Longrightarrow> 0 \<le> l_price l"
  shows "balancesNonNegative (snd (purchaseListing s A lid newId txn))"
proof (cases "getListing s lid")
  case None
  with assms(1) show ?thesis by (simp add: purchaseListing_def)
next
  case (Some l)
  then have price: "0 \<le> l_price l" by (rule assms(2))
  show ?thesis
  proof (cases "getUser s A")
    case None
    with Some assms(1) show ?thesis by (simp add: purchaseListing_def)
  next
    case buyer: (Some a)
    define s1 where
      "s1 = (if hasInfiniteBalance a then s else updateUserBalance s A (balance a - l_price l))"
    show ?thesis
    proof (cases "hasPurchased s A lid \<or> l_sellerId l = A
                  \<or> \<not> hasInfiniteBalance a \<and> balance a < l_price l")
      case True
      with Some buyer assms(1) show ?thesis
        by (auto simp: purchaseListing_def Let_def parseFloat_less)
    next
      case False
      then have run: "purchaseListing s A lid newId txn =
         (if \<not> hasInfiniteBalance a \<and> \<not> fitsDecimal12 (balance a - l_price l)
          then (Inl PurchaseFailed, s)
          else
            (case creditSeller s1 (l_sellerId l) (parseFloat (l_price l)) of
               Threw s2 \<Rightarrow> (Inl PurchaseFailed, s2)
             | Done s2 \<Rightarrow>
                 (Inr \<lparr>p_id = newId, p_buyerId = A, p_sellerId = l_sellerId l,
                        p_listingId = l_id l, p_amount = l_price l, p_platformFee = 0,
                        p_transactionId = txn\<rparr>,
                  purchaseAftermath
                    (createPurchase s2
                       \<lparr>p_id = newId, p_buyerId = A, p_sellerId = l_sellerId l,
                        p_listingId = l_id l, p_amount = l_price l, p_platformFee = 0,
                        p_transactionId = txn\<rparr>) l a)))"
        unfolding s1_def by (intro purchaseListing_unfold Some buyer) auto
      have "balancesNonNegative s1"
        using assms(1) False by (auto simp: s1_def intro: balancesNonNegative_updateUserBalance)
      then have "balancesNonNegative
          (case creditSeller s1 (l_sellerId l) (parseFloat (l_price l)) of
             Threw t \<Rightarrow> t | Done t \<Rightarrow> t)"
        using price by (intro balancesNonNegative_creditSeller) (simp_all add: parseFloat_nonneg)
      moreover have "balancesNonNegative (purchaseAftermath (createPurchase t p) l a)
          = balancesNonNegative t" for t p
        by (rule balancesNonNegative_users) (simp add: createPurchase_def)
      ultimately show ?thesis
        using assms(1) by (auto simp: run split: written.splits)
    qed
  qed
qed

lemma purchaseVerification_keeps_balances_nonneg:
  assumes "balancesNonNegative s"
  shows "balancesNonNegative (snd (purchaseVerification z s A newId clock1 clock2 clock3))"
proof (cases "getUser s A")
  case None
  with assms show ?thesis by (simp add: purchaseVerification_def)
next
  case (Some a)
  have upd: "\<not> parseFloat (balance a) < verificationCost
      \<Longrightarrow> balancesNonNegative
            (updateUserBalance s (user_id a) (toFixed2 (parseFloat (balance a) - verificationCost)))"
    using assms
    by (simp add: toFixed2_cost parseFloat_less_cost balancesNonNegative_updateUserBalance)
  have tail: "balancesNonNegative t
     \<Longrightarrow> balancesNonNegative
           (createNotification
              (snd (createVerificationPayment z t uid newId clock1 clock2 clock3)) n)" for t uid n
    by (auto simp: balancesNonNegative_def createNotification_def createVerificationPayment_def
        Let_def updateUser_def list_all_iff)
  from Some assms upd tail show ?thesis
    by (auto simp: purchaseVerification_def Let_def split_beta)
qed

lemma plusValue_nonneg:
  assumes "plusValue x v = Some y" and "truthy v" and "\<not> atMostZero reads v" and "0 \<le> x"
  shows "0 \<le> y"
  using assms by (cases v) (auto simp: fadd_def intro!: toDouble_nonneg)

text \<open>The gift handler, with the recipient's row resolved and its first write named.\<close>

lemma giftMoney_unfold:
  assumes "uid \<noteq> []" and "truthy amount" and "\<not> atMostZero reads amount"
    and "getUser s uid = Some r"
    and "d = (if \<not> hasInfiniteBalance r
              then (case plusValue (toDouble (parseFloat (balance r))) amount of
                      None \<Rightarrow> None
                    | Some newBalance \<Rightarrow> writeBalance s uid (toFixed2 newBalance))
              else Some s)"
  shows "giftMoney reads s G (Some uid) amount note gid =
     (case d of
        None \<Rightarrow> (Inl GiftFailed, s)
      | Some s1 \<Rightarrow>
          (case valueToFixed2 amount of
             None \<Rightarrow> (Inl GiftFailed, s1)
           | Some giftAmount \<Rightarrow>
               (case createMoneyGift s1
                       \<lparr>g_id = gid, g_fromUserId = G, g_toUserId = uid,
                        g_amount = giftAmount, g_note = note\<rparr> of
                  None \<Rightarrow> (Inl GiftFailed, s1)
                | Some s2 \<Rightarrow>
                    (Inr \<lparr>g_id = gid, g_fromUserId = G, g_toUserId = uid,
                           g_amount = giftAmount, g_note = note\<rparr>,
                     createNotification s2
                       \<lparr>n_userId = uid, n_type = ''gift'',
                        n_title = ''Money Gift Received''\<rparr>))))"
  using assms(1-4) unfolding assms(5)
  by (simp add: giftMoney_def Let_def split: option.splits)

lemma giftMoney_rejects:
  assumes "userId = None \<or> userId = Some [] \<or> \<not> truthy amount \<or> atMostZero reads amount
           \<or> (\<exists>uid. userId = Some uid \<and> getUser s uid = None)"
  shows "snd (giftMoney reads s G userId amount note gid) = s"
  using assms by (auto simp: giftMoney_def split: option.splits)

lemma giftMoney_keeps_balances_nonneg:
  assumes "balancesNonNegative s"
  shows "balancesNonNegative (snd (giftMoney reads s G userId amount note gid))"
proof (cases "userId = None \<or> userId = Some [] \<or> \<not> truthy amount \<or> atMostZero reads amount
           \<or> (\<exists>uid. userId = Some uid \<and> getUser s uid = None)")
  case True
  then show ?thesis using assms by (simp only: giftMoney_rejects)
next
  case False
  then obtain uid r where u: "userId = Some uid" "uid \<noteq> []" "truthy amount"
    "\<not> atMostZero reads amount" "getUser s uid = Some r"
    by (cases userId) auto
  define d where "d = (if \<not> hasInfiniteBalance r
              then (case plusValue (toDouble (parseFloat (balance r))) amount of
                      None \<Rightarrow> None
                    | Some newBalance \<Rightarrow> writeBalance s uid (toFixed2 newBalance))
              else Some s)"
  note run = giftMoney_unfold [OF u(2,3,4,5) d_def]
  have dnn: "balancesNonNegative t" if "d = Some t" for t
  proof (cases "hasInfiniteBalance r")
    case True
    with that assms show ?thesis by (simp add: d_def)
  next
    case False
    with that obtain y where y: "plusValue (toDouble (parseFloat (balance r))) amount = Some y"
      and w: "writeBalance s uid (toFixed2 y) = Some t"
      by (auto simp: d_def split: option.splits)
    have "0 \<le> balance r" using assms u(5) by (rule balancesNonNegative_getUser)
    then have "0 \<le> toDouble (parseFloat (balance r))"
      by (simp add: toDouble_nonneg parseFloat_nonneg)
    then have "0 \<le> y" by (rule plusValue_nonneg [OF y u(3,4)])
    with w assms show ?thesis
      by (auto simp: writeBalance_def toFixed2_nonneg balancesNonNegative_updateUserBalance
          split: if_splits)
  qed
  have gift: "balancesNonNegative t \<Longrightarrow> createMoneyGift t g = Some t'
      \<Longrightarrow> balancesNonNegative (createNotification t' n)" for t g t' n
    by (auto simp: balancesNonNegative_def createNotification_def createMoneyGift_def
        split: if_splits)
  show ?thesis
  proof (cases d)
    case None
    with assms show ?thesis by (simp add: u(1) run)
  next
    case (Some s1)
    with dnn gift show ?thesis by (auto simp: u(1) run split: option.splits)
  qed
qed

lemma purchaseListing_spares_unlimited_accounts:
  assumes "getUser s k = Some u" and "hasInfiniteBalance u"
  shows "getUser (snd (purchaseListing s A lid newId txn)) k = Some u"
proof (cases "getListing s lid")
  case None
  with assms show ?thesis by (simp add: purchaseListing_def)
next
  case (Some l)
  show ?thesis
  proof (cases "getUser s A")
    case None
    with Some assms show ?thesis by (simp add: purchaseListing_def)
  next
    case buyer: (Some a)
    define s1 where
      "s1 = (if hasInfiniteBalance a then s else updateUserBalance s A (balance a - l_price l))"
    show ?thesis
    proof (cases "hasPurchased s A lid \<or> l_sellerId l = A
                  \<or> \<not> hasInfiniteBalance a \<and> balance a < l_price l")
      case True
      with Some buyer assms(1) show ?thesis
        by (auto simp: purchaseListing_def Let_def parseFloat_less)
    next
      case False
      then have run: "purchaseListing s A lid newId txn =
         (if \<not> hasInfiniteBalance a \<and> \<not> fitsDecimal12 (balance a - l_price l)
          then (Inl PurchaseFailed, s)
          else
            (case creditSeller s1 (l_sellerId l) (parseFloat (l_price l)) of
               Threw s2 \<Rightarrow> (Inl PurchaseFailed, s2)
             | Done s2 \<Rightarrow>
                 (Inr \<lparr>p_id = newId, p_buyerId = A, p_sellerId = l_sellerId l,
                        p_listingId = l_id l, p_amount = l_price l, p_platformFee = 0,
                        p_transactionId = txn\<rparr>,
                  purchaseAftermath
                    (createPurchase s2
                       \<lparr>p_id = newId, p_buyerId = A, p_sellerId = l_sellerId l,
                        p_listingId = l_id l, p_amount = l_price l, p_platformFee = 0,
                        p_transactionId = txn\<rparr>) l a)))"
        unfolding s1_def by (intro purchaseListing_unfold Some buyer) auto
      have "getUser s1 k = Some u"
        using assms buyer by (auto simp: s1_def getUser_updateUserBalance)
      then have "getUser (case creditSeller s1 (l_sellerId l) (parseFloat (l_price l)) of
                            Threw t \<Rightarrow> t | Done t \<Rightarrow> t) k = Some u"
        using assms(2)
        by (auto simp: creditSeller_unfold getUser_updateUser getUser_updateUserBalance
            split: option.splits)
      then show ?thesis
        using assms(1) by (auto simp: run split: written.splits)
    qed
  qed
qed

lemma purchaseVerification_spares_unlimited_balance:
  assumes "getUser s k = Some u" and "hasInfiniteBalance u"
  shows "map_option balance
           (getUser (snd (purchaseVerification z s A newId clock1 clock2 clock3)) k)
         = Some (balance u)"
proof (cases "getUser s A")
  case None
  with assms show ?thesis by (simp add: purchaseVerification_def)
next
  case (Some a)
  have ida: "user_id a = A" using Some by (rule getUser_id)
  have k1: "\<not> hasInfiniteBalance a \<Longrightarrow> getUser (updateUserBalance s A b) k = Some u" for b
    using assms Some by (auto simp: getUser_updateUserBalance)
  show ?thesis
    using Some assms k1
    by (auto simp: purchaseVerification_def Let_def split_beta ida
        getUser_createVerificationPayment)
qed

lemma giftMoney_spares_unlimited_accounts:
  assumes "getUser s k = Some u" and "hasInfiniteBalance u"
  shows "getUser (snd (giftMoney reads s G userId amount note gid)) k = Some u"
proof (cases "userId = None \<or> userId = Some [] \<or> \<not> truthy amount \<or> atMostZero reads amount
           \<or> (\<exists>uid. userId = Some uid \<and> getUser s uid = None)")
  case True
  then show ?thesis using assms by (simp only: giftMoney_rejects)
next
  case False
  then obtain uid r where v: "userId = Some uid" "uid \<noteq> []" "truthy amount"
    "\<not> atMostZero reads amount" "getUser s uid = Some r"
    by (cases userId) auto
  define d where "d = (if \<not> hasInfiniteBalance r
              then (case plusValue (toDouble (parseFloat (balance r))) amount of
                      None \<Rightarrow> None
                    | Some newBalance \<Rightarrow> writeBalance s uid (toFixed2 newBalance))
              else Some s)"
  note run = giftMoney_unfold [OF v(2,3,4,5) d_def]
  have dk: "getUser t k = Some u" if "d = Some t" for t
    using that assms v(5)
    by (auto simp: d_def writeBalance_def getUser_updateUserBalance
        split: option.splits if_splits)
  have gift: "createMoneyGift t g = Some t' \<Longrightarrow> getUser (createNotification t' n) j = getUser t j"
    for t g t' n j
    by (auto simp: getUser_def createNotification_def createMoneyGift_def split: if_splits)
  show ?thesis
  proof (cases d)
    case None
    with assms show ?thesis by (simp add: v(1) run)
  next
    case (Some s1)
    with dk gift show ?thesis by (auto simp: v(1) run split: option.splits)
  qed
qed

text \<open>
  The two clock reads of \<open>createVerificationPayment\<close> matter: read on either side of the
  midnight that ends January (on a server whose local time is UTC), they give a period
  from 31 January to 1 March.
\<close>

lemma clock_reads_across_midnight:
  "fst (createVerificationPayment utc sampleDb ''carol'' ''V1''
          \<lparr>dYear = 2026, dMonth = 0, dDate = 31, dTime = 86399999\<rparr>
          \<lparr>dYear = 2026, dMonth = 1, dDate = 1, dTime = 0\<rparr>
          \<lparr>dYear = 2026, dMonth = 1, dDate = 1, dTime = 5\<rparr>)
   = \<lparr>vp_id = ''V1'', vp_userId = ''carol'', vp_amount = 500000,
      vp_periodStart = \<lparr>dYear = 2026, dMonth = 0, dDate = 31, dTime = 86399999\<rparr>,
      vp_periodEnd = \<lparr>dYear = 2026, dMonth = 2, dDate = 1, dTime = 0\<rparr>,
      vp_status = ''active''\<rparr>"
  by (simp add: createVerificationPayment_def Let_def utc_def setMonth_def getMonth_def
      setLocalMonth_def daysInMonth_def)

section \<open>Further inputs\<close>

text \<open>
  The handlers on inputs at the edges of the model. A gift of the number 0.035 to a
  balance of 2500.00: the doubles give a balance of 2500.03 and a gift row of 0.04.
\<close>

lemma double_of_0_035: "toDouble (7 / 200) = 1261007895663739 / 36028797018963968"
proof -
  have q: "ulpExponent (7 / 200) = - 57"
    by (rule ulpExponent_eq) (simp_all add: power_int_minus)
  show ?thesis
    by (simp add: toDouble_def q power_int_minus roundHalfEven_def Let_def
        floor_numeral_quotient)
qed


lemma double_of_2500_035:
  "fadd (toDouble (parseFloat 250000)) (1261007895663739 / 36028797018963968)
   = 687204388086743 / 274877906944"
proof -
  have bal: "toDouble (parseFloat 250000) = 2500"
    by (simp add: parseFloat_def)
  have sum: "2500 + 1261007895663739 / 36028797018963968
             = (90073253555305583739 / 36028797018963968 :: rat)"
    by simp
  have q: "ulpExponent (90073253555305583739 / 36028797018963968) = - 41"
    by (rule ulpExponent_eq) (simp_all add: power_int_minus)
  show ?thesis
    unfolding fadd_def bal sum
    by (simp add: toDouble_def q power_int_minus roundHalfEven_def Let_def
        floor_numeral_quotient)
qed

lemma gift_of_0_035:
  "giftMoney reads sampleDb ''admin'' (Some ''alice'') (JNumber (7 / 200)) None ''G3''
   = (Inr \<lparr>g_id = ''G3'', g_fromUserId = ''admin'', g_toUserId = ''alice'', g_amount = 4,
           g_note = None\<rparr>,
      createNotification
        ((updateUserBalance sampleDb ''alice'' 250003)
           \<lparr>moneyGifts := [\<lparr>g_id = ''G3'', g_fromUserId = ''admin'', g_toUserId = ''alice'',
                             g_amount = 4, g_note = None\<rparr>]\<rparr>)
        \<lparr>n_userId = ''alice'', n_type = ''gift'', n_title = ''Money Gift Received''\<rparr>)"
proof -
  have u: "getUser sampleDb ''alice'' = Some alice" "\<not> hasInfiniteBalance alice"
    "balance alice = 250000"
    by (simp_all add: sample_defs getUser_def)
  have amt: "toFixed2 (1261007895663739 / 36028797018963968) = 4"
    "toFixed2 (687204388086743 / 274877906944) = 250003"
    by (simp_all add: toFixed2_def floor_numeral_quotient)
  have empty: "moneyGifts (updateUserBalance sampleDb ''alice'' 250003) = []"
    by (simp add: sample_defs updateUserBalance_def)
  show ?thesis
    by (simp add: giftMoney_def u double_of_0_035 double_of_2500_035 amt empty
        writeBalance_def createMoneyGift_def fitsDecimal12_def Let_def)
qed

text \<open>
  A gift whose amount is a string, as the administration page sends it: nothing is
  written, and the answer is a rejection or, for a string that does not read as a
  number at most 0, the failure of \<open>toFixed\<close>.
\<close>

lemma gift_of_a_string_writes_nothing:
  "snd (giftMoney reads s G userId (JString str) note gid) = s
   \<and> fst (giftMoney reads s G userId (JString str) note gid)
       \<in> {Inl InvalidUserOrAmount, Inl UserNotFound, Inl GiftFailed}"
  by (auto simp: giftMoney_def split: option.splits)

lemma gift_of_the_string_100:
  assumes "\<not> reads ''100''"
  shows "giftMoney reads sampleDb ''admin'' (Some ''alice'') (JString ''100'') None ''G4''
         = (Inl GiftFailed, sampleDb)"
proof -
  have "getUser sampleDb ''alice'' = Some alice" "\<not> hasInfiniteBalance alice"
    by (simp_all add: sample_defs getUser_def)
  with assms show ?thesis by (simp add: giftMoney_def)
qed

text \<open>
  A purchase from a seller whose balance is at the top of its column: the buyer is
  debited, the credit overflows, and the handler fails with no purchase row.
\<close>

lemma seller_credit_overflow:
  "fst (purchaseListing (updateUserBalance sampleDb ''bob'' 999999999999) ''alice'' ''L1''
          ''P4'' ''TXN4'')
     = Inl PurchaseFailed
   \<and> snd (purchaseListing (updateUserBalance sampleDb ''bob'' 999999999999) ''alice'' ''L1''
            ''P4'' ''TXN4'')
     = updateUserBalance (updateUserBalance sampleDb ''bob'' 999999999999) ''alice'' 200000"
  by (simp add: sample_defs storage_defs purchaseListing_def creditSeller_def Let_def
      toFixed2_def parseFloat_def floor_numeral_quotient)

end
